theory Spec2Isabelle
  imports Complex_Main "HOL-Library.Multiset"
begin

section \<open>Python values, errors and built-ins used by the federated-learning code\<close>

text \<open>
  The repository is two Python modules: \<^verbatim>\<open>client_device.py\<close> (the Flower client
  \<^verbatim>\<open>CifarClient\<close> and the client-mode entry point) and \<^verbatim>\<open>sim_server.py\<close>
  (the simulation client factories, the metric aggregation \<^verbatim>\<open>weighted_average\<close>, the
  per-round configuration \<^verbatim>\<open>fit_config\<close> and the simulation entry point).

  Exceptions are values of \<open>py_error\<close>; a function that can raise returns
  \<open>py_error + 'a\<close> with \<open>Inl\<close> for the exception.
\<close>

datatype py_error =
    KeyError string
  | TypeError
  | ValueError
  | ZeroDivisionError
  | IndexError

text \<open>
  Flower's \<^verbatim>\<open>Scalar\<close> is \<^verbatim>\<open>bool | bytes | float | int | str\<close>; \<^verbatim>\<open>Metrics\<close> and
  the per-round configuration are dictionaries from \<^verbatim>\<open>str\<close> to \<^verbatim>\<open>Scalar\<close>.
  A Python \<^verbatim>\<open>float\<close> is idealised as a real number: the arithmetic of the model is
  exact, so rounding, infinities and NaN are outside it. The section on double-precision
  arithmetic below gives \<^verbatim>\<open>weighted_average\<close> a second time, with every float result
  rounded as Python rounds it.
\<close>

datatype scalar =
    SBool bool
  | SBytes string
  | SFloat real
  | SInt int
  | SStr string

type_synonym Metrics = "string \<rightharpoonup> scalar"
type_synonym Config = "string \<rightharpoonup> scalar"

text \<open>\<^verbatim>\<open>d[k]\<close> on a dictionary raises \<^verbatim>\<open>KeyError(k)\<close> when the key is absent.\<close>

definition dict_getitem :: "(string \<rightharpoonup> 'v) \<Rightarrow> string \<Rightarrow> py_error + 'v" where
  "dict_getitem d k = (case d k of None \<Rightarrow> Inl (KeyError k) | Some v \<Rightarrow> Inr v)"

text \<open>Sequencing of computations that may raise: the first exception wins.\<close>

definition bind_err :: "py_error + 'a \<Rightarrow> ('a \<Rightarrow> py_error + 'b) \<Rightarrow> py_error + 'b" where
  "bind_err r f = (case r of Inl e \<Rightarrow> Inl e | Inr v \<Rightarrow> f v)"

text \<open>
  The integer behind a \<^verbatim>\<open>bool\<close> or an \<^verbatim>\<open>int\<close> (\<^verbatim>\<open>bool\<close> is a subclass of
  \<^verbatim>\<open>int\<close>), and the number behind any numeric scalar.
\<close>

fun as_int :: "scalar \<Rightarrow> int option" where
  "as_int (SBool b) = Some (if b then 1 else 0)"
| "as_int (SInt i) = Some i"
| "as_int _ = None"

fun as_num :: "scalar \<Rightarrow> real option" where
  "as_num (SBool b) = Some (if b then 1 else 0)"
| "as_num (SInt i) = Some (of_int i)"
| "as_num (SFloat x) = Some x"
| "as_num _ = None"

text \<open>
  \<^verbatim>\<open>n * v\<close> for an \<^verbatim>\<open>int\<close> \<open>n\<close>: integer product for \<^verbatim>\<open>bool\<close> and \<^verbatim>\<open>int\<close>,
  float product for \<^verbatim>\<open>float\<close>, repetition for \<^verbatim>\<open>str\<close> and \<^verbatim>\<open>bytes\<close>
  (the empty sequence when \<open>n \<le> 0\<close>).
\<close>

fun py_mul_int :: "int \<Rightarrow> scalar \<Rightarrow> scalar" where
  "py_mul_int n (SBool b) = SInt (n * (if b then 1 else 0))"
| "py_mul_int n (SBytes s) = SBytes (concat (replicate (nat n) s))"
| "py_mul_int n (SFloat x) = SFloat (of_int n * x)"
| "py_mul_int n (SInt k) = SInt (n * k)"
| "py_mul_int n (SStr s) = SStr (concat (replicate (nat n) s))"

text \<open>
  \<^verbatim>\<open>a + b\<close>: integer sum when both are \<^verbatim>\<open>bool\<close>/\<^verbatim>\<open>int\<close>, float sum when both
  are numeric and one is a \<^verbatim>\<open>float\<close>, concatenation of two \<^verbatim>\<open>str\<close> or two
  \<^verbatim>\<open>bytes\<close>, \<^verbatim>\<open>TypeError\<close> otherwise.
\<close>

definition py_add :: "scalar \<Rightarrow> scalar \<Rightarrow> py_error + scalar" where
  "py_add a b =
     (case (as_int a, as_int b) of
        (Some i, Some j) \<Rightarrow> Inr (SInt (i + j))
      | _ \<Rightarrow>
        (case (as_num a, as_num b) of
           (Some x, Some y) \<Rightarrow> Inr (SFloat (x + y))
         | _ \<Rightarrow>
           (case (a, b) of
              (SStr s, SStr t) \<Rightarrow> Inr (SStr (s @ t))
            | (SBytes s, SBytes t) \<Rightarrow> Inr (SBytes (s @ t))
            | _ \<Rightarrow> Inl TypeError)))"

text \<open>
  \<^verbatim>\<open>sum(xs)\<close>: starts from the \<^verbatim>\<open>int\<close> 0 and adds the elements from left to
  right, stopping at the first addition that raises.
\<close>

fun sum_from :: "scalar \<Rightarrow> scalar list \<Rightarrow> py_error + scalar" where
  "sum_from acc [] = Inr acc"
| "sum_from acc (x # xs) =
     (case py_add acc x of Inl e \<Rightarrow> Inl e | Inr acc' \<Rightarrow> sum_from acc' xs)"

definition py_sum :: "scalar list \<Rightarrow> py_error + scalar" where
  "py_sum xs = sum_from (SInt 0) xs"

text \<open>
  \<^verbatim>\<open>a / b\<close> (true division): a \<^verbatim>\<open>float\<close> for numeric operands,
  \<^verbatim>\<open>ZeroDivisionError\<close> when the divisor is zero, \<^verbatim>\<open>TypeError\<close> for a
  non-numeric operand.
\<close>

definition py_truediv :: "scalar \<Rightarrow> scalar \<Rightarrow> py_error + scalar" where
  "py_truediv a b =
     (case (as_num a, as_num b) of
        (Some x, Some y) \<Rightarrow> if y = 0 then Inl ZeroDivisionError else Inr (SFloat (x / y))
      | _ \<Rightarrow> Inl TypeError)"

section \<open>Metric aggregation: \<^verbatim>\<open>weighted_average\<close> (sim\_server.py)\<close>

text \<open>
  \<^verbatim>\<open>
  def weighted_average(metrics: list[tuple[int, Metrics]]) -> Metrics:
      accuracies = [num_examples * m["accuracy"] for num_examples, m in metrics]
      examples = [num_examples for num_examples, _ in metrics]
      return {"accuracy": sum(accuracies) / sum(examples)}
  \<close>
  The first comprehension raises \<^verbatim>\<open>KeyError\<close> at the first result whose metrics lack
  \<^verbatim>\<open>"accuracy"\<close>, before anything is summed or divided.
\<close>

fun accuracies_of :: "(int \<times> Metrics) list \<Rightarrow> py_error + scalar list" where
  "accuracies_of [] = Inr []"
| "accuracies_of ((num_examples, m) # rest) =
     (case dict_getitem m ''accuracy'' of
        Inl e \<Rightarrow> Inl e
      | Inr a \<Rightarrow>
        (case accuracies_of rest of
           Inl e \<Rightarrow> Inl e
         | Inr accs \<Rightarrow> Inr (py_mul_int num_examples a # accs)))"

definition examples_of :: "(int \<times> Metrics) list \<Rightarrow> scalar list" where
  "examples_of metrics = map (\<lambda>(num_examples, _). SInt num_examples) metrics"

definition weighted_average :: "(int \<times> Metrics) list \<Rightarrow> py_error + Metrics" where
  "weighted_average metrics =
     bind_err (accuracies_of metrics) (\<lambda>accuracies.
       let examples = examples_of metrics in
       bind_err (py_sum accuracies) (\<lambda>total_acc.
       bind_err (py_sum examples) (\<lambda>total_n.
       bind_err (py_truediv total_acc total_n) (\<lambda>q.
       Inr [''accuracy'' \<mapsto> q]))))"


text \<open>Accumulators of \<^verbatim>\<open>sum\<close>: the start value 0 and every partial sum is an
  \<^verbatim>\<open>int\<close> or a \<^verbatim>\<open>float\<close>.\<close>

fun is_number :: "scalar \<Rightarrow> bool" where
  "is_number (SInt _) = True"
| "is_number (SFloat _) = True"
| "is_number _ = False"

section \<open>More built-ins: \<^verbatim>\<open>int()\<close>, \<^verbatim>\<open>str()\<close> of an integer, list indexing\<close>

text \<open>
  Strings are ASCII. \<^verbatim>\<open>int(s)\<close> in base 10 skips leading whitespace, takes an
  optional sign, then digits in which single underscores may separate digits, then
  trailing whitespace up to the end of the string; anything else is a
  \<^verbatim>\<open>ValueError\<close>.
\<close>

definition is_space :: "char \<Rightarrow> bool" where
  "is_space c = ((of_char c :: nat) \<in> {9, 10, 11, 12, 13, 32})"

definition is_digit :: "char \<Rightarrow> bool" where
  "is_digit c = (48 \<le> (of_char c :: nat) \<and> (of_char c :: nat) \<le> 57)"

definition digit_val :: "char \<Rightarrow> nat" where
  "digit_val c = of_char c - 48"

definition is_digit_or_underscore :: "char \<Rightarrow> bool" where
  "is_digit_or_underscore c = (is_digit c \<or> c = CHR ''_'')"

fun has_double_underscore :: "string \<Rightarrow> bool" where
  "has_double_underscore (a # b # cs) =
     ((a = CHR ''_'' \<and> b = CHR ''_'') \<or> has_double_underscore (b # cs))"
| "has_double_underscore _ = False"

definition digits_value :: "string \<Rightarrow> nat" where
  "digits_value ds = foldl (\<lambda>acc c. 10 * acc + digit_val c) 0 ds"

definition py_int_str :: "string \<Rightarrow> py_error + int" where
  "py_int_str s =
     (let s1 = dropWhile is_space s;
          negative = (s1 \<noteq> [] \<and> hd s1 = CHR ''-'');
          s2 = (if s1 \<noteq> [] \<and> (hd s1 = CHR ''+'' \<or> hd s1 = CHR ''-'') then tl s1 else s1);
          body = takeWhile is_digit_or_underscore s2;
          trailing = dropWhile is_digit_or_underscore s2
      in if body = [] \<or> hd body = CHR ''_'' \<or> last body = CHR ''_''
            \<or> has_double_underscore body \<or> \<not> list_all is_space trailing
         then Inl ValueError
         else let v = int (digits_value (filter is_digit body))
              in Inr (if negative then - v else v))"

text \<open>
  \<^verbatim>\<open>int(v)\<close> for a scalar: the integer itself for \<^verbatim>\<open>int\<close> and \<^verbatim>\<open>bool\<close>,
  truncation towards zero for a \<^verbatim>\<open>float\<close>, parsing for \<^verbatim>\<open>str\<close> and
  \<^verbatim>\<open>bytes\<close>.
\<close>

fun py_int :: "scalar \<Rightarrow> py_error + int" where
  "py_int (SBool b) = Inr (if b then 1 else 0)"
| "py_int (SBytes s) = py_int_str s"
| "py_int (SFloat x) = Inr (if 0 \<le> x then \<lfloor>x\<rfloor> else \<lceil>x\<rceil>)"
| "py_int (SInt i) = Inr i"
| "py_int (SStr s) = py_int_str s"

text \<open>Decimal text of an integer, as an f-string formats it.\<close>

definition digit_char :: "nat \<Rightarrow> char" where
  "digit_char d = ''0123456789'' ! d"

fun str_of_nat :: "nat \<Rightarrow> string" where
  "str_of_nat n =
     (if n < 10 then [digit_char n] else str_of_nat (n div 10) @ [digit_char (n mod 10)])"

definition str_of_int :: "int \<Rightarrow> string" where
  "str_of_int i = (if i < 0 then CHR ''-'' # str_of_nat (nat (- i)) else str_of_nat (nat i))"

text \<open>
  \<^verbatim>\<open>xs[i]\<close> on a list: a negative index counts from the end, and an index outside
  \<open>-len(xs) \<le> i < len(xs)\<close> raises \<^verbatim>\<open>IndexError\<close>.
\<close>

definition list_getitem :: "'a list \<Rightarrow> int \<Rightarrow> py_error + 'a" where
  "list_getitem xs i =
     (if 0 \<le> i \<and> i < int (length xs) then Inr (xs ! nat i)
      else if i < 0 \<and> - int (length xs) \<le> i then Inr (xs ! nat (int (length xs) + i))
      else Inl IndexError)"

section \<open>The Flower client \<^verbatim>\<open>CifarClient\<close> (client\_device.py)\<close>

text \<open>
  The client id is an \<^verbatim>\<open>int\<close> in client mode (\<^verbatim>\<open>random.randint(0, 1000)\<close>) and
  the \<^verbatim>\<open>str\<close> handed over by the simulation in simulation mode; an f-string formats
  either.
\<close>

datatype client_id = IdInt int | IdStr string

fun format_id :: "client_id \<Rightarrow> string" where
  "format_id (IdInt i) = str_of_int i"
| "format_id (IdStr s) = s"

record ('net, 'dl) CifarClient =
  client_id :: client_id
  net :: 'net
  train_dataloader :: 'dl
  test_dataloader :: 'dl

datatype device = Cuda | Cpu

text \<open>
  What the client code calls but the two modules do not define
  (\<^verbatim>\<open>src.utils.helper_func\<close>, the dataset objects): parameters of the model.
  \<^item> \<open>get_parameters_h\<close>: \<^verbatim>\<open>get_parameters(net)\<close>;
  \<^item> \<open>set_parameters_h\<close>: \<^verbatim>\<open>set_parameters(net, parameters)\<close>, the net after the
    in-place update, or the exception it raises;
  \<^item> \<open>train_h\<close>: \<^verbatim>\<open>train(net, dataloader, epochs, device)\<close>, the trained net and the
    list of per-epoch metrics;
  \<^item> \<open>test_h\<close>: \<^verbatim>\<open>test(net, dataloader, device)\<close>, the loss, the accuracy and the
    list of metrics;
  \<^item> \<open>save_metrics_to_csv_h\<close>: \<^verbatim>\<open>save_metrics_to_csv(filename, metrics_list)\<close>
    on the file system \<open>'fs\<close>;
  \<^item> \<open>dataset_len\<close>: \<^verbatim>\<open>len(dataloader.dataset)\<close>.
\<close>

record ('net, 'dl, 'p, 'ml, 'fs) helpers =
  get_parameters_h :: "'net \<Rightarrow> 'p"
  set_parameters_h :: "'net \<Rightarrow> 'p \<Rightarrow> py_error + 'net"
  train_h :: "'net \<Rightarrow> 'dl \<Rightarrow> int \<Rightarrow> device \<Rightarrow> py_error + ('net \<times> 'ml)"
  test_h :: "'net \<Rightarrow> 'dl \<Rightarrow> device \<Rightarrow> py_error + (real \<times> real \<times> 'ml)"
  save_metrics_to_csv_h :: "string \<Rightarrow> 'ml \<Rightarrow> 'fs \<Rightarrow> py_error + 'fs"
  dataset_len :: "'dl \<Rightarrow> nat"

text \<open>What a call prints, and the world outside the client object.\<close>

datatype log_line =
    FitLine scalar Config
  | EvaluateLine scalar Config
  | EvalResultLine real real

record 'fs world =
  files :: 'fs
  stdout :: "log_line list"
  cuda_is_available :: bool

definition current_device :: "'fs world \<Rightarrow> device" where
  "current_device w = (if cuda_is_available w then Cuda else Cpu)"

definition print_line :: "log_line \<Rightarrow> 'fs world \<Rightarrow> 'fs world" where
  "print_line l w = w\<lparr>stdout := stdout w @ [l]\<rparr>"

text \<open>
  The methods take the configuration dictionary by reference; each model returns it
  next to its outcome, as the dictionary is after the call.
  \<^verbatim>\<open>
  def get_parameters(self, config):
      return get_parameters(self.net)

  def set_parameters(self, parameters, config):
      set_parameters(self.net, parameters)
  \<close>
\<close>

definition get_parameters ::
  "('net, 'dl, 'p, 'ml, 'fs) helpers \<Rightarrow> ('net, 'dl) CifarClient \<Rightarrow> Config \<Rightarrow> 'p \<times> Config" where
  "get_parameters h self config = (get_parameters_h h (net self), config)"

definition set_parameters ::
  "('net, 'dl, 'p, 'ml, 'fs) helpers \<Rightarrow> ('net, 'dl) CifarClient \<Rightarrow> 'p \<Rightarrow> Config
     \<Rightarrow> (py_error + ('net, 'dl) CifarClient) \<times> Config" where
  "set_parameters h self parameters config =
     (bind_err (set_parameters_h h (net self) parameters) (\<lambda>net'. Inr (self\<lparr>net := net'\<rparr>)),
      config)"

definition train_metrics_file :: "('net, 'dl) CifarClient \<Rightarrow> string" where
  "train_metrics_file self = ''client_'' @ format_id (client_id self) @ ''_train_metrics.csv''"

definition eval_metrics_file :: "('net, 'dl) CifarClient \<Rightarrow> string" where
  "eval_metrics_file self = ''client_'' @ format_id (client_id self) @ ''_eval_metrics.csv''"


text \<open>
  \<^verbatim>\<open>
  def fit(self, parameters, config):
      server_round = config["server_round"]
      local_epochs = config["local_epochs"]
      device = torch.device("cuda" if torch.cuda.is_available() else "cpu")
      print(f"[Client, round {server_round}] fit, config: {config}")
      self.set_parameters(parameters, config)
      metrics_list = train(self.net, self.train_dataloader,
                           epochs=int(local_epochs), device=device)
      save_metrics_to_csv(f"client_{self.client_id}_train_metrics.csv", metrics_list)
      return self.get_parameters({}), len(self.train_dataloader.dataset), {}
  \<close>
  The outcome is the exception raised, or the returned triple together with the client
  object and the world as the call leaves them; the second component is the
  configuration dictionary after the call.
\<close>

definition fit ::
  "('net, 'dl, 'p, 'ml, 'fs) helpers \<Rightarrow> ('net, 'dl) CifarClient \<Rightarrow> 'p \<Rightarrow> Config \<Rightarrow> 'fs world
     \<Rightarrow> (py_error + ('p \<times> int \<times> Metrics) \<times> ('net, 'dl) CifarClient \<times> 'fs world) \<times> Config" where
  "fit h self parameters config w =
     (case dict_getitem config ''server_round'' of
        Inl e \<Rightarrow> (Inl e, config)
      | Inr server_round \<Rightarrow>
     (case dict_getitem config ''local_epochs'' of
        Inl e \<Rightarrow> (Inl e, config)
      | Inr local_epochs \<Rightarrow>
        let device = current_device w;
            w1 = print_line (FitLine server_round config) w;
            (r, config1) = set_parameters h self parameters config
        in (bind_err r (\<lambda>self1.
            bind_err (py_int local_epochs) (\<lambda>epochs.
            bind_err (train_h h (net self1) (train_dataloader self1) epochs device)
              (\<lambda>(net2, metrics_list).
            let self2 = self1\<lparr>net := net2\<rparr> in
            bind_err (save_metrics_to_csv_h h (train_metrics_file self2) metrics_list (files w1))
              (\<lambda>files2.
            let (ps, _) = get_parameters h self2 Map.empty in
            Inr ((ps, int (dataset_len h (train_dataloader self2)), Map.empty),
                 self2, w1\<lparr>files := files2\<rparr>))))),
            config1)))"

text \<open>
  \<^verbatim>\<open>
  def evaluate(self, parameters, config):
      server_round = config["server_round"]
      device = torch.device("cuda" if torch.cuda.is_available() else "cpu")
      print(f"[Client, round {server_round}] evaluate, config: {config}")
      self.set_parameters(parameters, config)
      loss, accuracy, metrics_list = test(self.net, self.test_dataloader, device=device)
      print(f"Client-side evaluation loss {loss} / accuracy {accuracy}")
      save_metrics_to_csv(f"client_{self.client_id}_eval_metrics.csv", metrics_list)
      return (float(loss), len(self.test_dataloader.dataset),
              {"accuracy": float(accuracy)})
  \<close>
\<close>

definition evaluate ::
  "('net, 'dl, 'p, 'ml, 'fs) helpers \<Rightarrow> ('net, 'dl) CifarClient \<Rightarrow> 'p \<Rightarrow> Config \<Rightarrow> 'fs world
     \<Rightarrow> (py_error + (real \<times> int \<times> Metrics) \<times> ('net, 'dl) CifarClient \<times> 'fs world) \<times> Config" where
  "evaluate h self parameters config w =
     (case dict_getitem config ''server_round'' of
        Inl e \<Rightarrow> (Inl e, config)
      | Inr server_round \<Rightarrow>
        let device = current_device w;
            w1 = print_line (EvaluateLine server_round config) w;
            (r, config1) = set_parameters h self parameters config
        in (bind_err r (\<lambda>self1.
            bind_err (test_h h (net self1) (test_dataloader self1) device)
              (\<lambda>(loss, accuracy, metrics_list).
            let w2 = print_line (EvalResultLine loss accuracy) w1 in
            bind_err (save_metrics_to_csv_h h (eval_metrics_file self1) metrics_list (files w2))
              (\<lambda>files2.
            Inr ((loss, int (dataset_len h (test_dataloader self1)),
                  [''accuracy'' \<mapsto> SFloat accuracy]),
                 self1, w2\<lparr>files := files2\<rparr>)))),
            config1))"

section \<open>Building clients: the entry point of client\_device.py and the factories of
  sim\_server.py\<close>

text \<open>
  The model constructor, the device moves and the dataset loader come from torchvision
  and \<^verbatim>\<open>src.utils.dataset_utils\<close>: parameters of the model.
  \<^item> \<open>mobilenet_v2\<close>: \<^verbatim>\<open>mobilenet_v2(weights=None, num_classes=10)\<close>;
  \<^item> \<open>to_device\<close>, \<open>to_float32\<close>: \<^verbatim>\<open>net.to(device)\<close>, \<^verbatim>\<open>net.to(torch.float32)\<close>;
  \<^item> \<open>load_datasets\<close>: \<^verbatim>\<open>load_datasets(batch_size=...)\<close>, the train and the test
    dataloader;
  \<^item> \<open>cuda_available\<close>: \<^verbatim>\<open>torch.cuda.is_available()\<close>.
\<close>

record ('net, 'dl) torch_env =
  mobilenet_v2 :: 'net
  to_device :: "device \<Rightarrow> 'net \<Rightarrow> 'net"
  to_float32 :: "'net \<Rightarrow> 'net"
  load_datasets :: "int \<Rightarrow> 'dl \<times> 'dl"
  cuda_available :: bool

text \<open>
  \<^verbatim>\<open>
  def main():
      net = mobilenet_v2(weights=None, num_classes=10)
      net.to(torch.float32)
      train_dataloader, test_dataloader = load_datasets(batch_size=32)
      client = CifarClient(
          client_id=random.randint(0, 1000),
          net=net, train_dataloader=train_dataloader, test_dataloader=test_dataloader)
      fl.client.start_numpy_client(server_address="127.0.0.1:8080", client=client)
  \<close>
  \<^verbatim>\<open>random.randint(0, 1000)\<close> returns an integer between 0 and 1000 chosen by the
  generator, which is seeded from the operating system; the model takes the number
  drawn as the argument \<open>draw\<close> and gives the client that \<^verbatim>\<open>main\<close> hands to Flower.
\<close>

definition client_device_main :: "('net, 'dl) torch_env \<Rightarrow> int \<Rightarrow> ('net, 'dl) CifarClient" where
  "client_device_main env draw =
     (let net0 = to_float32 env (mobilenet_v2 env);
          (train_dl, test_dl) = load_datasets env 32
      in \<lparr>client_id = IdInt draw, net = net0,
          train_dataloader = train_dl, test_dataloader = test_dl\<rparr>)"

text \<open>The constants of sim\_server.py.\<close>

definition BATCH_SIZE :: int where "BATCH_SIZE = 32"
definition NUM_CLIENTS :: int where "NUM_CLIENTS = 2"
definition NUM_ROUNDS :: int where "NUM_ROUNDS = 50"
definition LOCAL_EPOCHS :: int where "LOCAL_EPOCHS = 1"

text \<open>
  The module-level lists
  \<^verbatim>\<open>client_train_datasets, client_test_datasets = load_seperate_datasets(NUM_CLIENTS, BATCH_SIZE)\<close>
  come from \<^verbatim>\<open>src.utils.dataset_utils\<close>: parameters of the model.
\<close>

record 'dl sim_globals =
  client_train_datasets :: "'dl list"
  client_test_datasets :: "'dl list"

text \<open>
  \<^verbatim>\<open>
  def client_fn(cid) -> CifarClient:
      net = mobilenet_v2(weights=None, num_classes=10)
      device = torch.device("cuda" if torch.cuda.is_available() else "cpu")
      net.to(device).to(torch.float32)
      train_dataloader, test_dataloader = load_datasets(batch_size=BATCH_SIZE)
      client = CifarClient(client_id=cid, net=net, ...)
      return client

  def client_fn_gpu(cid: str):
      net = mobilenet_v2(weights=None, num_classes=10)
      device = torch.device("cuda" if torch.cuda.is_available() else "cpu")
      net.to(device).to(torch.float32)
      train_dataloader = client_train_datasets[int(cid)]
      test_dataloader = client_test_datasets[int(cid)]
      client = CifarClient(client_id=cid, net=net, ...)
      return client
  \<close>
\<close>

definition new_net :: "('net, 'dl) torch_env \<Rightarrow> 'net" where
  "new_net env =
     (let device = (if cuda_available env then Cuda else Cpu)
      in to_float32 env (to_device env device (mobilenet_v2 env)))"

definition client_fn :: "('net, 'dl) torch_env \<Rightarrow> client_id \<Rightarrow> ('net, 'dl) CifarClient" where
  "client_fn env cid =
     (let net0 = new_net env;
          (train_dl, test_dl) = load_datasets env BATCH_SIZE
      in \<lparr>client_id = cid, net = net0,
          train_dataloader = train_dl, test_dataloader = test_dl\<rparr>)"

definition client_fn_gpu ::
  "('net, 'dl) torch_env \<Rightarrow> 'dl sim_globals \<Rightarrow> string \<Rightarrow> py_error + ('net, 'dl) CifarClient" where
  "client_fn_gpu env g cid =
     (let net0 = new_net env in
      bind_err (py_int_str cid) (\<lambda>i.
      bind_err (list_getitem (client_train_datasets g) i) (\<lambda>train_dl.
      bind_err (py_int_str cid) (\<lambda>j.
      bind_err (list_getitem (client_test_datasets g) j) (\<lambda>test_dl.
      Inr \<lparr>client_id = IdStr cid, net = net0,
           train_dataloader = train_dl, test_dataloader = test_dl\<rparr>)))))"

section \<open>The per-round configuration \<^verbatim>\<open>fit_config\<close> (sim\_server.py)\<close>

text \<open>
  \<^verbatim>\<open>
  def fit_config(server_round: int, local_epochs: int = LOCAL_EPOCHS):
      config = {
          "server_round": server_round,
          "local_epochs": local_epochs,
      }
      return config
  \<close>
  The optional argument is \<open>None\<close> when the caller leaves it out, as the strategy does:
  it is registered as \<^verbatim>\<open>on_fit_config_fn\<close> and called with the round number alone.
\<close>

definition fit_config :: "int \<Rightarrow> int option \<Rightarrow> Config" where
  "fit_config server_round local_epochs =
     [''server_round'' \<mapsto> SInt server_round,
      ''local_epochs'' \<mapsto> SInt (case local_epochs of None \<Rightarrow> LOCAL_EPOCHS | Some e \<Rightarrow> e)]"

definition on_fit_config_fn :: "int \<Rightarrow> Config" where
  "on_fit_config_fn server_round = fit_config server_round None"


section \<open>Double-precision arithmetic\<close>

text \<open>
  A Python \<^verbatim>\<open>float\<close> is an IEEE 754 binary64 number, and every float operation
  returns the exact result rounded to the nearest such number, ties to the even
  significand. The definitions below round: a finite double is the real number it
  stands for, \<open>expo x\<close> is the binary exponent of a positive \<open>x\<close>
  (\<open>2 ^ expo x \<le> x < 2 ^ (expo x + 1)\<close>), and \<open>rnd\<close> rounds to 53 significant bits, or
  to a multiple of \<open>2 ^ -1074\<close> below the smallest normal number \<open>2 ^ -1022\<close>. Results
  beyond the largest double (about \<open>1.8e308\<close>), where Python returns an infinity or, for
  the conversion of an \<^verbatim>\<open>int\<close>, raises \<^verbatim>\<open>OverflowError\<close>, are outside the model, and
  so is NaN.
\<close>

function expo_down :: "real \<Rightarrow> int" where
  "expo_down x = (if 2 \<le> x then expo_down (x / 2) + 1 else 0)"
  by pat_completeness auto
termination
proof (relation "measure (\<lambda>x. nat \<lfloor>x\<rfloor>)")
  show "wf (measure (\<lambda>x. nat \<lfloor>x\<rfloor>))" by simp
next
  fix x :: real
  assume big: "2 \<le> x"
  have "of_int \<lfloor>x / 2\<rfloor> \<le> x / 2" by (rule of_int_floor_le)
  with big have "of_int (\<lfloor>x / 2\<rfloor> + 1) \<le> x" by simp
  then have "\<lfloor>x / 2\<rfloor> + 1 \<le> \<lfloor>x\<rfloor>" by (simp only: le_floor_iff)
  moreover from big have "0 < \<lfloor>x\<rfloor>" by (simp add: less_floor_iff)
  ultimately have "nat \<lfloor>x / 2\<rfloor> < nat \<lfloor>x\<rfloor>" by (simp add: nat_less_iff)
  then show "(x / 2, x) \<in> measure (\<lambda>x. nat \<lfloor>x\<rfloor>)" by (simp only: in_measure)
qed

function expo_up :: "real \<Rightarrow> int" where
  "expo_up x = (if 0 < x \<and> x < 1 then expo_up (2 * x) - 1 else 0)"
  by pat_completeness auto
termination
proof (relation "measure (\<lambda>x. nat \<lfloor>1 / x\<rfloor>)")
  show "wf (measure (\<lambda>x. nat \<lfloor>1 / x\<rfloor>))" by simp
next
  fix x :: real
  assume small: "0 < x \<and> x < 1"
  define y where "y = 1 / x"
  from small have one: "1 < y" by (simp add: y_def)
  have half: "1 / (2 * x) = y / 2" by (simp add: y_def)
  have "\<lfloor>y / 2\<rfloor> < \<lfloor>y\<rfloor>"
  proof (cases "2 \<le> y")
    case True
    have "of_int \<lfloor>y / 2\<rfloor> \<le> y / 2" by (rule of_int_floor_le)
    with True have "of_int (\<lfloor>y / 2\<rfloor> + 1) \<le> y" by simp
    then have "\<lfloor>y / 2\<rfloor> + 1 \<le> \<lfloor>y\<rfloor>" by (simp only: le_floor_iff)
    then show ?thesis by simp
  next
    case False
    with one have "\<lfloor>y / 2\<rfloor> = 0" "\<lfloor>y\<rfloor> = 1" by (simp_all add: floor_eq_iff)
    then show ?thesis by simp
  qed
  moreover from one have "0 < \<lfloor>y\<rfloor>" by (simp add: less_floor_iff)
  ultimately have "nat \<lfloor>y / 2\<rfloor> < nat \<lfloor>y\<rfloor>" by (simp add: nat_less_iff)
  then have "nat \<lfloor>1 / (2 * x)\<rfloor> < nat \<lfloor>1 / x\<rfloor>" by (simp only: half) (simp only: y_def)
  then show "(2 * x, x) \<in> measure (\<lambda>x. nat \<lfloor>1 / x\<rfloor>)" by (simp only: in_measure)
qed

declare expo_down.simps [simp del] expo_up.simps [simp del]

definition expo :: "real \<Rightarrow> int" where
  "expo x = (if 1 \<le> x then expo_down x else expo_up x)"

definition round_half_even :: "real \<Rightarrow> int" where
  "round_half_even q =
     (let f = \<lfloor>q\<rfloor>; d = q - of_int f
      in if d < 1 / 2 then f else if 1 / 2 < d then f + 1 else if even f then f else f + 1)"

definition rnd :: "real \<Rightarrow> real" where
  "rnd x =
     (if x = 0 then 0
      else let e = max (expo \<bar>x\<bar>) (- 1022); q = 2 powi (e - 52)
           in sgn x * of_int (round_half_even (\<bar>x\<bar> / q)) * q)"

text \<open>
  \<^verbatim>\<open>float(i)\<close> for an \<^verbatim>\<open>int\<close>, and the operand of a float operation as a float.
\<close>

definition f64_of_int :: "int \<Rightarrow> real" where
  "f64_of_int i = rnd (of_int i)"

fun f64_num :: "scalar \<Rightarrow> real option" where
  "f64_num (SBool b) = Some (if b then 1 else 0)"
| "f64_num (SInt i) = Some (f64_of_int i)"
| "f64_num (SFloat x) = Some x"
| "f64_num _ = None"

text \<open>
  The arithmetic of \<^verbatim>\<open>weighted_average\<close> with rounding: integer results stay exact
  (Python integers are unbounded), an \<^verbatim>\<open>int\<close> operand of a float operation is
  converted to a float first, and every float result is rounded. Dividing two integers
  rounds their exact quotient. \<^verbatim>\<open>sum\<close> adds the items from left to right and rounds
  each partial sum (CPython from version 3.12 on also carries a correction term for the
  rounding errors of float additions, which the model leaves out).
\<close>

fun f64_mul_int :: "int \<Rightarrow> scalar \<Rightarrow> scalar" where
  "f64_mul_int n (SFloat x) = SFloat (rnd (f64_of_int n * x))"
| "f64_mul_int n v = py_mul_int n v"

definition f64_add :: "scalar \<Rightarrow> scalar \<Rightarrow> py_error + scalar" where
  "f64_add a b =
     (case (as_int a, as_int b) of
        (Some i, Some j) \<Rightarrow> Inr (SInt (i + j))
      | _ \<Rightarrow>
        (case (f64_num a, f64_num b) of
           (Some x, Some y) \<Rightarrow> Inr (SFloat (rnd (x + y)))
         | _ \<Rightarrow> py_add a b))"

fun f64_sum_from :: "scalar \<Rightarrow> scalar list \<Rightarrow> py_error + scalar" where
  "f64_sum_from acc [] = Inr acc"
| "f64_sum_from acc (x # xs) =
     (case f64_add acc x of Inl e \<Rightarrow> Inl e | Inr acc' \<Rightarrow> f64_sum_from acc' xs)"

definition f64_sum :: "scalar list \<Rightarrow> py_error + scalar" where
  "f64_sum xs = f64_sum_from (SInt 0) xs"

definition f64_truediv :: "scalar \<Rightarrow> scalar \<Rightarrow> py_error + scalar" where
  "f64_truediv a b =
     (case (as_int a, as_int b) of
        (Some i, Some j) \<Rightarrow>
          if j = 0 then Inl ZeroDivisionError else Inr (SFloat (rnd (of_int i / of_int j)))
      | _ \<Rightarrow>
        (case (f64_num a, f64_num b) of
           (Some x, Some y) \<Rightarrow>
             if y = 0 then Inl ZeroDivisionError else Inr (SFloat (rnd (x / y)))
         | _ \<Rightarrow> Inl TypeError))"

text \<open>\<^verbatim>\<open>weighted_average\<close> in double precision: the same three lines.\<close>

fun f64_accuracies_of :: "(int \<times> Metrics) list \<Rightarrow> py_error + scalar list" where
  "f64_accuracies_of [] = Inr []"
| "f64_accuracies_of ((num_examples, m) # rest) =
     (case dict_getitem m ''accuracy'' of
        Inl e \<Rightarrow> Inl e
      | Inr a \<Rightarrow>
        (case f64_accuracies_of rest of
           Inl e \<Rightarrow> Inl e
         | Inr accs \<Rightarrow> Inr (f64_mul_int num_examples a # accs)))"

definition weighted_average_f64 :: "(int \<times> Metrics) list \<Rightarrow> py_error + Metrics" where
  "weighted_average_f64 metrics =
     bind_err (f64_accuracies_of metrics) (\<lambda>accuracies.
       let examples = examples_of metrics in
       bind_err (f64_sum accuracies) (\<lambda>total_acc.
       bind_err (f64_sum examples) (\<lambda>total_n.
       bind_err (f64_truediv total_acc total_n) (\<lambda>q.
       Inr [''accuracy'' \<mapsto> q]))))"

text \<open>The unit roundoff of binary64: half the gap between 1 and the next double.\<close>

definition unit_roundoff :: real where
  "unit_roundoff = 1 / 2 ^ 53"

section \<open>A small instance of the parameters\<close>

text \<open>
  Nets and parameters are lists of integers, a dataloader is the list of its examples,
  the per-epoch metrics are (loss, accuracy) pairs and the file system is the list of
  files written. Training for \<open>e\<close> epochs adds \<open>e\<close> to every weight and reports one
  metrics pair per epoch.
\<close>

definition toy_helpers ::
  "(int list, nat list, int list, (real \<times> real) list, (string \<times> (real \<times> real) list) list) helpers"
  where
  "toy_helpers =
     \<lparr>get_parameters_h = (\<lambda>n. n),
      set_parameters_h = (\<lambda>n p. if length p = length n then Inr p else Inl ValueError),
      train_h = (\<lambda>n dl epochs dev. Inr (map (\<lambda>x. x + epochs) n, replicate (nat epochs) (0.5, 0.9))),
      test_h = (\<lambda>n dl dev. Inr (0.25, 0.75, [(0.25, 0.75)])),
      save_metrics_to_csv_h = (\<lambda>name ml fs. Inr (fs @ [(name, ml)])),
      dataset_len = length\<rparr>"

definition toy_client :: "(int list, nat list) CifarClient" where
  "toy_client =
     \<lparr>client_id = IdStr ''0'', net = [1, 2],
      train_dataloader = [10, 11, 12], test_dataloader = [20, 21]\<rparr>"

definition toy_world :: "(string \<times> (real \<times> real) list) list world" where
  "toy_world = \<lparr>files = [], stdout = [], cuda_is_available = False\<rparr>"

definition toy_env :: "(int list, nat list) torch_env" where
  "toy_env =
     \<lparr>mobilenet_v2 = [0, 0], to_device = (\<lambda>d n. n), to_float32 = (\<lambda>n. n),
      load_datasets = (\<lambda>b. ([10, 11, 12], [20, 21])), cuda_available = False\<rparr>"

definition toy_globals :: "nat list sim_globals" where
  "toy_globals =
     \<lparr>client_train_datasets = [[10, 11, 12], [13, 14]],
      client_test_datasets = [[20, 21], [22]]\<rparr>"

section \<open>Facts about the built-ins\<close>

lemma accuracies_of_char:
  "accuracies_of rs =
     (if \<forall>r \<in> set rs. snd r ''accuracy'' \<noteq> None
      then Inr (map (\<lambda>r. py_mul_int (fst r) (the (snd r ''accuracy''))) rs)
      else Inl (KeyError ''accuracy''))"
proof (induction rs)
  case Nil
  show ?case by simp
next
  case (Cons r rs)
  obtain n m where r: "r = (n, m)" by (cases r)
  show ?case
  proof (cases "m ''accuracy''")
    case None
    with r show ?thesis by (simp add: dict_getitem_def)
  next
    case (Some a)
    with r Cons.IH show ?thesis by (simp add: dict_getitem_def)
  qed
qed

lemma as_int_as_num: "as_int s = Some i \<Longrightarrow> as_num s = Some (of_int i)"
  by (cases s) auto

lemma py_add_char:
  "as_num a = Some x \<Longrightarrow>
   py_add a b =
     (case as_num b of
        None \<Rightarrow> Inl TypeError
      | Some y \<Rightarrow>
        (case (as_int a, as_int b) of
           (Some i, Some j) \<Rightarrow> Inr (SInt (i + j))
         | _ \<Rightarrow> Inr (SFloat (x + y))))"
  by (cases a; cases b) (auto simp: py_add_def)

lemma sum_from_char:
  "is_number acc \<Longrightarrow>
   sum_from acc xs =
     (if \<exists>s \<in> set xs. as_num s = None then Inl TypeError
      else if as_int acc \<noteq> None \<and> (\<forall>s \<in> set xs. as_int s \<noteq> None)
        then Inr (SInt (the (as_int acc) + sum_list (map (\<lambda>s. the (as_int s)) xs)))
        else Inr (SFloat (the (as_num acc) + sum_list (map (\<lambda>s. the (as_num s)) xs))))"
proof (induction xs arbitrary: acc)
  case Nil
  then show ?case by (cases acc) auto
next
  case (Cons s xs)
  from Cons.prems obtain x where x: "as_num acc = Some x" by (cases acc) auto
  show ?case
  proof (cases "as_num s")
    case None
    with x show ?thesis by (simp add: py_add_char)
  next
    case (Some y)
    show ?thesis
    proof (cases "as_int acc")
      case None
      with x Some have "py_add acc s = Inr (SFloat (x + y))"
        by (simp add: py_add_char)
      with Cons.IH [of "SFloat (x + y)"] None Some x show ?thesis
        by (simp add: add.assoc)
    next
      case (Some i)
      note acc_int = this
      show ?thesis
      proof (cases "as_int s")
        case None
        with x \<open>as_num s = Some y\<close> acc_int have "py_add acc s = Inr (SFloat (x + y))"
          by (simp add: py_add_char)
        with Cons.IH [of "SFloat (x + y)"] None \<open>as_num s = Some y\<close> x show ?thesis
          by (simp add: add.assoc)
      next
        case (Some j)
        with x \<open>as_num s = Some y\<close> acc_int have "py_add acc s = Inr (SInt (i + j))"
          by (simp add: py_add_char)
        moreover have "x = of_int i" "y = of_int j"
          using as_int_as_num [OF acc_int] as_int_as_num [OF Some] x \<open>as_num s = Some y\<close>
          by simp_all
        ultimately show ?thesis
          using Cons.IH [of "SInt (i + j)"] Some acc_int \<open>as_num s = Some y\<close> x
          by (simp add: add.assoc)
      qed
    qed
  qed
qed

lemma sum_list_as_int_as_num:
  "\<forall>s \<in> set xs. as_int s \<noteq> None \<Longrightarrow>
   real_of_int (sum_list (map (\<lambda>s. the (as_int s)) xs)) = sum_list (map (\<lambda>s. the (as_num s)) xs)"
proof (induction xs)
  case Nil
  show ?case by simp
next
  case (Cons s xs)
  then obtain i where "as_int s = Some i" by auto
  with as_int_as_num [OF this] Cons show ?case by simp
qed

text \<open>The number a sum of numeric scalars stands for does not depend on whether Python
  keeps it as an int or as a float.\<close>

lemma py_sum_char:
  "py_sum xs =
     (if \<exists>s \<in> set xs. as_num s = None then Inl TypeError
      else if \<forall>s \<in> set xs. as_int s \<noteq> None
        then Inr (SInt (sum_list (map (\<lambda>s. the (as_int s)) xs)))
        else Inr (SFloat (sum_list (map (\<lambda>s. the (as_num s)) xs))))"
  by (simp add: py_sum_def sum_from_char)

lemma py_sum_num:
  "\<forall>s \<in> set xs. as_num s \<noteq> None \<Longrightarrow>
   \<exists>t. py_sum xs = Inr t \<and> as_num t = Some (sum_list (map (\<lambda>s. the (as_num s)) xs))"
  by (auto simp: py_sum_char sum_list_as_int_as_num)

lemma py_sum_examples: "py_sum (examples_of rs) = Inr (SInt (sum_list (map fst rs)))"
  by (simp add: py_sum_char examples_of_def o_def case_prod_unfold)

lemma as_num_py_mul_int_None: "as_num (py_mul_int n v) = None \<longleftrightarrow> as_num v = None"
  by (cases v) auto

lemma as_num_py_mul_int_the:
  "as_num v \<noteq> None \<Longrightarrow> the (as_num (py_mul_int n v)) = of_int n * the (as_num v)"
  by (cases v) auto


lemma weighted_average_char:
  "weighted_average rs =
     (if \<exists>r \<in> set rs. snd r ''accuracy'' = None then Inl (KeyError ''accuracy'')
      else if \<exists>r \<in> set rs. as_num (the (snd r ''accuracy'')) = None then Inl TypeError
      else if sum_list (map fst rs) = 0 then Inl ZeroDivisionError
      else Inr [''accuracy'' \<mapsto>
             SFloat (sum_list (map (\<lambda>r. of_int (fst r) * the (as_num (the (snd r ''accuracy'')))) rs)
                     / of_int (sum_list (map fst rs)))])"
proof (cases "\<exists>r \<in> set rs. snd r ''accuracy'' = None")
  case True
  then show ?thesis by (auto simp: weighted_average_def accuracies_of_char bind_err_def)
next
  case nokey: False
  let ?accs = "map (\<lambda>r. py_mul_int (fst r) (the (snd r ''accuracy''))) rs"
  have accs: "accuracies_of rs = Inr ?accs"
    using nokey by (simp add: accuracies_of_char)
  show ?thesis
  proof (cases "\<exists>r \<in> set rs. as_num (the (snd r ''accuracy'')) = None")
    case True
    then have "\<exists>s \<in> set ?accs. as_num s = None"
      by (auto simp: as_num_py_mul_int_None)
    then have "py_sum ?accs = Inl TypeError"
      by (simp only: py_sum_char if_True)
    with nokey True accs show ?thesis
      by (simp add: weighted_average_def bind_err_def)
  next
    case False
    then have num: "\<forall>s \<in> set ?accs. as_num s \<noteq> None"
      by (auto simp: as_num_py_mul_int_None simp del: not_None_eq)
    from py_sum_num [OF num] obtain t where t: "py_sum ?accs = Inr t"
      and tn: "as_num t = Some (sum_list (map (\<lambda>s. the (as_num s)) ?accs))" by blast
    have "sum_list (map (\<lambda>s. the (as_num s)) ?accs) =
          sum_list (map (\<lambda>r. of_int (fst r) * the (as_num (the (snd r ''accuracy'')))) rs)"
      using False by (auto simp: o_def as_num_py_mul_int_the intro!: arg_cong [where f = sum_list])
    with tn have tn': "as_num t =
        Some (sum_list (map (\<lambda>r. of_int (fst r) * the (as_num (the (snd r ''accuracy'')))) rs))"
      by simp
    show ?thesis
      using nokey False accs t tn'
      by (simp add: weighted_average_def bind_err_def py_sum_examples py_truediv_def)
  qed
qed



lemma sum_list_fst_pos:
  "rs \<noteq> [] \<Longrightarrow> \<forall>r \<in> set rs. 0 < fst r \<Longrightarrow> 0 < sum_list (map fst rs)"
  for rs :: "(int \<times> 'a) list"
proof -
  assume ne: "rs \<noteq> []" and pos: "\<forall>r \<in> set rs. 0 < fst r"
  then obtain r rs' where rs: "rs = r # rs'" by (cases rs) auto
  from pos rs have "0 \<le> sum_list (map fst rs')"
    by (intro sum_list_nonneg) auto
  moreover from pos rs have "0 < fst r" by simp
  ultimately show ?thesis using rs by simp
qed

lemma sum_list_const_acc:
  "\<forall>r \<in> set rs. snd r ''accuracy'' = Some (SFloat a) \<Longrightarrow>
   sum_list (map (\<lambda>r. of_int (fst r) * the (as_num (the (snd r ''accuracy'')))) rs) =
   of_int (sum_list (map fst rs)) * a"
  for rs :: "(int \<times> Metrics) list"
  by (induction rs) (auto simp: algebra_simps)

section \<open>Properties of \<^verbatim>\<open>weighted_average\<close>\<close>



text \<open>
  With every sample count 0 the division \<^verbatim>\<open>sum(accuracies) / sum(examples)\<close> has a
  zero divisor: Python raises \<^verbatim>\<open>ZeroDivisionError\<close>, and no accuracy, NaN or other,
  is reported.
\<close>

theorem weighted_average_zero_counts_counterexample:
  "weighted_average
     [(0, [''accuracy'' \<mapsto> SFloat 0.8]), (0, [''accuracy'' \<mapsto> SFloat 0.6])] =
   Inl ZeroDivisionError"
  by (simp add: weighted_average_def bind_err_def dict_getitem_def py_sum_def py_add_def
      examples_of_def py_truediv_def)

text \<open>
  Claim C2, as the code has it. For every list of evaluation results in which every
  client's sample count is 0, \<^verbatim>\<open>weighted_average\<close> raises an exception instead of
  returning metrics; when every result carries a float accuracy (as the clients report
  it) the exception is \<^verbatim>\<open>ZeroDivisionError\<close>.
\<close>

theorem weighted_average_zero_counts_raise:
  assumes "\<forall>r \<in> set rs. fst r = 0"
  shows "(\<exists>e. weighted_average rs = Inl e)
       \<and> ((\<forall>r \<in> set rs. \<exists>a. snd r ''accuracy'' = Some (SFloat a)) \<longrightarrow>
            weighted_average rs = Inl ZeroDivisionError)"
proof -
  from assms have "map fst rs = map (\<lambda>_. 0) rs" by simp
  then have z: "sum_list (map fst rs) = 0" by (simp only: sum_list_0) 
  have 1: "\<exists>e. weighted_average rs = Inl e"
    by (simp add: weighted_average_char z)
  have 2: "weighted_average rs = Inl ZeroDivisionError"
    if "\<forall>r \<in> set rs. \<exists>a. snd r ''accuracy'' = Some (SFloat a)"
  proof -
    from that have "\<not> (\<exists>r \<in> set rs. snd r ''accuracy'' = None)"
      and "\<not> (\<exists>r \<in> set rs. as_num (the (snd r ''accuracy'')) = None)"
      by fastforce+
    then show ?thesis by (simp add: weighted_average_char z)
  qed
  from 1 2 show ?thesis by blast
qed

theorem weighted_average_zero_counts_raise_witness:
  "list_all (\<lambda>r. fst r = 0)
     [(0::int, [''accuracy'' \<mapsto> SFloat 1]), (0, [''accuracy'' \<mapsto> SFloat 0])]
   \<and> weighted_average
       [(0, [''accuracy'' \<mapsto> SFloat 1]), (0, [''accuracy'' \<mapsto> SFloat 0])] =
     Inl ZeroDivisionError"
proof -
  let ?rs = "[(0::int, [''accuracy'' \<mapsto> SFloat 1]), (0, [''accuracy'' \<mapsto> SFloat 0])]"
  have h1: "\<forall>r \<in> set ?rs. fst r = 0" by simp
  have h2: "\<forall>r \<in> set ?rs. \<exists>a. snd r ''accuracy'' = Some (SFloat a)" by simp
  from weighted_average_zero_counts_raise [OF h1] h2
  have "weighted_average ?rs = Inl ZeroDivisionError" by blast
  then show ?thesis by simp
qed



text \<open>In the exact arithmetic of \<open>weighted_average\<close> agreeing clients are averaged to
  their common accuracy.\<close>

lemma weighted_average_exact_idempotent:
  assumes "rs \<noteq> []"
    and "\<forall>r \<in> set rs. 0 < fst r \<and> snd r ''accuracy'' = Some (SFloat a)"
  shows "weighted_average rs = Inr [''accuracy'' \<mapsto> SFloat a]"
proof -
  from assms have pos: "0 < sum_list (map fst rs)" by (simp add: sum_list_fst_pos)
  from assms(2) have acc: "\<forall>r \<in> set rs. snd r ''accuracy'' = Some (SFloat a)" by simp
  then have "\<not> (\<exists>r \<in> set rs. snd r ''accuracy'' = None)"
    and "\<not> (\<exists>r \<in> set rs. as_num (the (snd r ''accuracy'')) = None)"
    by fastforce+
  with pos show ?thesis
    by (simp add: weighted_average_char sum_list_const_acc [OF acc])
qed

section \<open>Rounding: \<^verbatim>\<open>weighted_average\<close> in double precision\<close>

lemma expo_down_spec:
  "1 \<le> x \<Longrightarrow> 2 powi expo_down x \<le> x \<and> x < 2 powi (expo_down x + 1)"
proof (induction x rule: expo_down.induct)
  case (1 x)
  show ?case
  proof (cases "2 \<le> x")
    case True
    with "1.IH" have ih: "2 powi expo_down (x / 2) \<le> x / 2" "x / 2 < 2 powi (expo_down (x / 2) + 1)"
      by simp_all
    have e: "expo_down x = expo_down (x / 2) + 1"
      using True by (subst expo_down.simps) simp
    from ih show ?thesis
      unfolding e by (simp add: power_int_add field_simps)
  next
    case False
    then have "expo_down x = 0" by (subst expo_down.simps) simp
    with False "1.prems" show ?thesis by simp
  qed
qed

lemma expo_up_spec:
  "0 < x \<Longrightarrow> x < 1 \<Longrightarrow> 2 powi expo_up x \<le> x \<and> x < 2 powi (expo_up x + 1)"
proof (induction x rule: expo_up.induct)
  case (1 x)
  from "1.prems" have e: "expo_up x = expo_up (2 * x) - 1"
    by (subst expo_up.simps) simp
  show ?case
  proof (cases "2 * x < 1")
    case True
    with "1.IH" "1.prems"
    have ih: "2 powi expo_up (2 * x) \<le> 2 * x" "2 * x < 2 powi (expo_up (2 * x) + 1)"
      by simp_all
    have "2 powi (expo_up (2 * x) - 1) = 2 powi expo_up (2 * x) / (2::real)"
      by (simp add: power_int_diff)
    moreover have "2 powi (expo_up (2 * x) - 1 + 1) = (2::real) powi expo_up (2 * x)"
      by simp
    moreover have "2 powi (expo_up (2 * x) + 1) = 2 powi expo_up (2 * x) * (2::real)"
      by (simp add: power_int_add)
    ultimately show ?thesis
      using ih unfolding e by simp
  next
    case False
    then have "expo_up (2 * x) = 0" by (subst expo_up.simps) simp
    with False "1.prems" show ?thesis unfolding e by simp
  qed
qed

lemma expo_spec:
  assumes "0 < x"
  shows "2 powi expo x \<le> x" and "x < 2 powi (expo x + 1)"
  using assms expo_down_spec [of x] expo_up_spec [of x]
  by (auto simp: expo_def not_le)

lemma expo_normal:
  assumes "2 powi (- 1022) \<le> x"
  shows "- 1022 \<le> expo x"
proof (rule ccontr)
  assume "\<not> - 1022 \<le> expo x"
  then have "expo x + 1 \<le> - 1022" by simp
  then have "(2::real) powi (expo x + 1) \<le> 2 powi (- 1022)"
    by (intro power_int_increasing) simp_all
  moreover have "0 < x" using assms zero_less_power_int [of "2::real" "- 1022"] by linarith
  ultimately show False using expo_spec(2) [of x] assms by linarith
qed

lemma round_half_even_error: "\<bar>of_int (round_half_even q) - q\<bar> \<le> 1 / 2"
proof -
  have "of_int \<lfloor>q\<rfloor> \<le> q" "q < of_int \<lfloor>q\<rfloor> + 1" by linarith+
  then show ?thesis
    by (auto simp: round_half_even_def Let_def)
qed

lemma rnd_error:
  assumes "2 powi (- 1022) \<le> x"
  shows "\<bar>rnd x - x\<bar> \<le> unit_roundoff * x"
proof -
  have pos: "0 < x" using assms zero_less_power_int [of "2::real" "- 1022"] by linarith
  define e where "e = expo x"
  define q :: real where "q = 2 powi (e - 52)"
  have qpos: "0 < q" by (simp add: q_def zero_less_power_int)
  have emax: "max (expo \<bar>x\<bar>) (- 1022) = e"
    using expo_normal [OF assms] pos by (simp add: e_def)
  have r: "rnd x = of_int (round_half_even (x / q)) * q"
    using pos emax by (simp add: rnd_def Let_def q_def)
  have "\<bar>of_int (round_half_even (x / q)) - x / q\<bar> \<le> 1 / 2"
    by (rule round_half_even_error)
  then have "\<bar>of_int (round_half_even (x / q)) - x / q\<bar> * q \<le> 1 / 2 * q"
    using qpos by (intro mult_right_mono) simp_all
  moreover have "\<bar>of_int (round_half_even (x / q)) - x / q\<bar> * q =
      \<bar>(of_int (round_half_even (x / q)) - x / q) * q\<bar>"
    using qpos by (simp add: abs_mult)
  moreover have "(of_int (round_half_even (x / q)) - x / q) * q = rnd x - x"
    using qpos by (simp add: r left_diff_distrib)
  ultimately have 1: "\<bar>rnd x - x\<bar> \<le> q / 2" by simp
  have "q = 2 powi e / 2 ^ 52"
    by (simp add: q_def power_int_diff)
  then have "q / 2 = 2 powi e * unit_roundoff"
    by (simp add: unit_roundoff_def)
  moreover have "2 powi e \<le> x" using expo_spec(1) [OF pos] by (simp add: e_def)
  moreover have "0 \<le> unit_roundoff" by (simp add: unit_roundoff_def)
  ultimately have "q / 2 \<le> x * unit_roundoff" by (simp add: mult_right_mono)
  with 1 show ?thesis by (simp add: mult.commute)
qed

lemma rnd_bounds:
  assumes "2 powi (- 1022) \<le> x"
  shows "x * (1 - unit_roundoff) \<le> rnd x" and "rnd x \<le> x * (1 + unit_roundoff)"
proof -
  from rnd_error [OF assms] have "rnd x - x \<le> unit_roundoff * x" "x - rnd x \<le> unit_roundoff * x"
    by linarith+
  then show "x * (1 - unit_roundoff) \<le> rnd x" and "rnd x \<le> x * (1 + unit_roundoff)"
    by (simp_all add: right_diff_distrib distrib_left mult.commute)
qed

lemma unit_roundoff_range: "0 < unit_roundoff" "unit_roundoff < 1"
  by (simp_all add: unit_roundoff_def)

lemma min_normal_le_one: "(2::real) powi (- 1022) \<le> 1"
  using power_int_increasing [of "- 1022" 0 "2::real"] by simp

lemma f64_of_int_bounds:
  assumes "0 < n"
  shows "of_int n * (1 - unit_roundoff) \<le> f64_of_int n"
    and "f64_of_int n \<le> of_int n * (1 + unit_roundoff)"
proof -
  from assms have "(1::real) \<le> of_int n" by simp
  with min_normal_le_one have "2 powi (- 1022) \<le> (of_int n :: real)" by linarith
  from rnd_bounds [OF this]
  show "of_int n * (1 - unit_roundoff) \<le> f64_of_int n"
    and "f64_of_int n \<le> of_int n * (1 + unit_roundoff)"
    by (simp_all add: f64_of_int_def)
qed

text \<open>One product \<^verbatim>\<open>num_examples * accuracy\<close>: two roundings.\<close>

lemma product_bounds:
  assumes n: "0 < n" and a: "2 powi (- 1022) \<le> a * (1 - unit_roundoff)\<^sup>2"
  shows "of_int n * a * (1 - unit_roundoff)\<^sup>2 \<le> rnd (f64_of_int n * a)"
    and "rnd (f64_of_int n * a) \<le> of_int n * a * (1 + unit_roundoff)\<^sup>2"
    and "2 powi (- 1022) \<le> rnd (f64_of_int n * a)"
    and "0 < a"
proof -
  let ?l = "1 - unit_roundoff" and ?h = "1 + unit_roundoff"
  have l: "0 < ?l" "?l \<le> 1" using unit_roundoff_range by simp_all
  have mnpos: "(0::real) < 2 powi (- 1022)" by (simp add: zero_less_power_int)
  show apos: "0 < a"
  proof (rule ccontr)
    assume "\<not> 0 < a"
    then have "a * ?l\<^sup>2 \<le> 0" by (simp add: mult_nonpos_nonneg)
    with a mnpos show False by linarith
  qed
  have l2: "?l\<^sup>2 \<le> ?l" using l by (simp add: power2_eq_square mult_left_le)
  have n1: "(1::real) \<le> of_int n" using n by simp
  have lo1: "of_int n * a * ?l \<le> f64_of_int n * a"
    using f64_of_int_bounds(1) [OF n] apos by (simp add: mult_right_mono mult.assoc mult.left_commute)
  have hi1: "f64_of_int n * a \<le> of_int n * a * ?h"
    using f64_of_int_bounds(2) [OF n] apos by (simp add: mult_right_mono mult.assoc mult.left_commute)
  have "a * ?l\<^sup>2 \<le> a * ?l" using l2 apos by simp
  also have "\<dots> \<le> of_int n * a * ?l" using n1 apos l by simp
  finally have base: "a * ?l\<^sup>2 \<le> of_int n * a * ?l" .
  with a lo1 have normal: "2 powi (- 1022) \<le> f64_of_int n * a" by linarith
  from rnd_bounds [OF normal]
  have r: "f64_of_int n * a * ?l \<le> rnd (f64_of_int n * a)"
      "rnd (f64_of_int n * a) \<le> f64_of_int n * a * ?h" by simp_all
  have "of_int n * a * ?l\<^sup>2 = of_int n * a * ?l * ?l" by (simp add: power2_eq_square)
  also have "\<dots> \<le> f64_of_int n * a * ?l" using lo1 l by (simp add: mult_right_mono)
  also note r(1)
  finally show lo: "of_int n * a * ?l\<^sup>2 \<le> rnd (f64_of_int n * a)" .
  have "f64_of_int n * a * ?h \<le> of_int n * a * ?h * ?h"
    using hi1 unit_roundoff_range by (simp add: mult_right_mono)
  also have "\<dots> = of_int n * a * ?h\<^sup>2" by (simp add: power2_eq_square)
  finally show "rnd (f64_of_int n * a) \<le> of_int n * a * ?h\<^sup>2" using r(2) by linarith
  have "a * ?l\<^sup>2 \<le> of_int n * a * ?l\<^sup>2"
    using n1 apos l by simp
  with a lo show "2 powi (- 1022) \<le> rnd (f64_of_int n * a)" by linarith
qed

lemma f64_accuracies_same:
  "\<forall>r \<in> set rs. snd r ''accuracy'' = Some (SFloat a) \<Longrightarrow>
   f64_accuracies_of rs = Inr (map (\<lambda>r. SFloat (rnd (f64_of_int (fst r) * a))) rs)"
proof (induction rs)
  case Nil
  show ?case by simp
next
  case (Cons r rs)
  obtain n m where r: "r = (n, m)" by (cases r)
  with Cons show ?case by (simp add: dict_getitem_def)
qed

lemma f64_sum_from_ints:
  "f64_sum_from (SInt i) (map SInt ns) = Inr (SInt (i + sum_list ns))"
  by (induction ns arbitrary: i) (simp_all add: f64_add_def add.assoc)

lemma f64_sum_examples: "f64_sum (examples_of rs) = Inr (SInt (sum_list (map fst rs)))"
proof -
  have "examples_of rs = map SInt (map fst rs)"
    by (simp add: examples_of_def o_def case_prod_unfold)
  then have "f64_sum (examples_of rs) = f64_sum_from (SInt 0) (map SInt (map fst rs))"
    by (simp only: f64_sum_def)
  also have "\<dots> = Inr (SInt (0 + sum_list (map fst rs)))"
    by (rule f64_sum_from_ints)
  finally show ?thesis by simp
qed

text \<open>Adding one more product to a running float sum: one more rounding.\<close>

lemma f64_sum_from_bounds:
  assumes "\<forall>n \<in> set ns. 0 < n"
    and a: "2 powi (- 1022) \<le> a * (1 - unit_roundoff)\<^sup>2"
    and "0 \<le> B" and "2 \<le> m"
    and "B * (1 - unit_roundoff) ^ m \<le> s" and "s \<le> B * (1 + unit_roundoff) ^ m"
  shows "\<exists>s'. f64_sum_from (SFloat s) (map (\<lambda>n. SFloat (rnd (f64_of_int n * a))) ns) = Inr (SFloat s')
     \<and> (B + of_int (sum_list ns) * a) * (1 - unit_roundoff) ^ (m + length ns) \<le> s'
     \<and> s' \<le> (B + of_int (sum_list ns) * a) * (1 + unit_roundoff) ^ (m + length ns)"
  using assms
proof (induction ns arbitrary: B m s)
  case Nil
  then show ?case by simp
next
  case (Cons n ns)
  let ?l = "1 - unit_roundoff" and ?h = "1 + unit_roundoff"
  let ?t = "rnd (f64_of_int n * a)"
  have l: "0 < ?l" "?l \<le> 1" and h: "1 \<le> ?h" "0 < ?h" using unit_roundoff_range by simp_all
  from Cons.prems have n: "0 < n" and ns: "\<forall>n \<in> set ns. 0 < n" by simp_all
  note a = Cons.prems(2)
  note B = \<open>0 \<le> B\<close> and m = \<open>2 \<le> m\<close>
  note slo = \<open>B * ?l ^ m \<le> s\<close> and shi = \<open>s \<le> B * ?h ^ m\<close>
  note t = product_bounds [OF n a]
  have na: "0 \<le> of_int n * a" using n t(4) by simp
  have s0: "0 \<le> s"
  proof -
    have "0 \<le> B * ?l ^ m" using B l by simp
    with slo show ?thesis by linarith
  qed
  have lm: "?l ^ m \<le> ?l\<^sup>2" using l m by (intro power_decreasing) simp_all
  have hm: "?h\<^sup>2 \<le> ?h ^ m" using h m by (intro power_increasing) simp_all
  have xlo: "(B + of_int n * a) * ?l ^ m \<le> s + ?t"
  proof -
    have "of_int n * a * ?l ^ m \<le> of_int n * a * ?l\<^sup>2" using lm na by (rule mult_left_mono)
    with t(1) slo show ?thesis by (simp add: distrib_right)
  qed
  have xhi: "s + ?t \<le> (B + of_int n * a) * ?h ^ m"
  proof -
    have "of_int n * a * ?h\<^sup>2 \<le> of_int n * a * ?h ^ m" using hm na by (rule mult_left_mono)
    with t(2) shi show ?thesis by (simp add: distrib_right)
  qed
  have normal: "2 powi (- 1022) \<le> s + ?t" using t(3) s0 by linarith
  note r = rnd_bounds [OF normal]
  have rlo: "(B + of_int n * a) * ?l ^ Suc m \<le> rnd (s + ?t)"
  proof -
    have "(B + of_int n * a) * ?l ^ Suc m = (B + of_int n * a) * ?l ^ m * ?l" by simp
    also have "\<dots> \<le> (s + ?t) * ?l" using xlo l by (intro mult_right_mono) simp_all
    also note r(1)
    finally show ?thesis .
  qed
  have rhi: "rnd (s + ?t) \<le> (B + of_int n * a) * ?h ^ Suc m"
  proof -
    note r(2)
    also have "(s + ?t) * ?h \<le> (B + of_int n * a) * ?h ^ m * ?h"
      using xhi h by (intro mult_right_mono) simp_all
    also have "\<dots> = (B + of_int n * a) * ?h ^ Suc m" by simp
    finally show ?thesis .
  qed
  have B': "0 \<le> B + of_int n * a" using B na by simp
  have m': "2 \<le> Suc m" using m by simp
  from Cons.IH [OF ns a B' m' rlo rhi]
  obtain s' where s': "f64_sum_from (SFloat (rnd (s + ?t)))
        (map (\<lambda>n. SFloat (rnd (f64_of_int n * a))) ns) = Inr (SFloat s')"
    and lo: "(B + of_int n * a + of_int (sum_list ns) * a) * ?l ^ (Suc m + length ns) \<le> s'"
    and hi: "s' \<le> (B + of_int n * a + of_int (sum_list ns) * a) * ?h ^ (Suc m + length ns)"
    by blast
  have step: "f64_add (SFloat s) (SFloat ?t) = Inr (SFloat (rnd (s + ?t)))"
    by (simp add: f64_add_def)
  have eq: "B + of_int n * a + of_int (sum_list ns) * a = B + of_int (sum_list (n # ns)) * a"
    by (simp add: distrib_right)
  from s' lo hi show ?case
    unfolding eq by (simp add: step)
qed

lemma length_le_sum_pos:
  "\<forall>n \<in> set ns. 0 < n \<Longrightarrow> int (length ns) \<le> sum_list ns" for ns :: "int list"
proof (induction ns)
  case Nil
  show ?case by simp
next
  case (Cons n ns)
  then have "1 \<le> n" "int (length ns) \<le> sum_list ns" by simp_all
  then show ?case by simp
qed

text \<open>With at most \<open>2 ^ 51\<close> roundings the accumulated factor stays above one half.\<close>

lemma roundoff_power_half:
  assumes "real m \<le> 2 ^ 52"
  shows "1 / 2 \<le> (1 - unit_roundoff) ^ m"
proof -
  have "1 + real m * (- unit_roundoff) \<le> (1 + (- unit_roundoff)) ^ m"
    using unit_roundoff_range by (intro Bernoulli_inequality) simp
  then have A: "1 - real m * unit_roundoff \<le> (1 - unit_roundoff) ^ m" by simp
  have "real m * unit_roundoff \<le> 2 ^ 52 * unit_roundoff"
    using assms unit_roundoff_range by (intro mult_right_mono) simp_all
  also have "\<dots> = 1 / 2" by (simp add: unit_roundoff_def)
  finally have B: "real m * unit_roundoff \<le> 1 / 2" .
  from A B show ?thesis by linarith
qed

lemma weighted_average_f64_bounds:
  assumes ne: "rs \<noteq> []"
    and same: "\<forall>r \<in> set rs. 0 < fst r \<and> snd r ''accuracy'' = Some (SFloat a)"
    and small: "2 powi (- 1020) \<le> a"
    and total: "sum_list (map fst rs) \<le> 2 ^ 51"
  shows "\<exists>r. weighted_average_f64 rs = Inr [''accuracy'' \<mapsto> SFloat r]
     \<and> a * (1 - unit_roundoff) ^ (length rs + 3) / (1 + unit_roundoff) \<le> r
     \<and> r \<le> a * (1 + unit_roundoff) ^ (length rs + 3) / (1 - unit_roundoff)"
proof -
  let ?l = "1 - unit_roundoff" and ?h = "1 + unit_roundoff"
  let ?k = "length rs"
  let ?N = "sum_list (map fst rs)"
  have l: "0 < ?l" "?l \<le> 1" and h: "1 \<le> ?h" "0 < ?h" "?h \<le> 2"
    using unit_roundoff_range by simp_all
  have mn: "(2::real) powi (- 1020) = 4 * 2 powi (- 1022)"
  proof -
    have "(2::real) powi (- 1020) = 2 powi (2 + (- 1022))" by simp
    also have "\<dots> = 2 powi 2 * 2 powi (- 1022)" by (rule power_int_add) simp
    finally show ?thesis by simp
  qed
  have mnpos: "(0::real) < 2 powi (- 1022)" by (rule zero_less_power_int) simp
  have apos: "0 < a" using small mn mnpos by linarith
  from same have pos: "\<forall>n \<in> set (map fst rs). 0 < n" by simp
  have kN: "int ?k \<le> ?N" using length_le_sum_pos [OF pos] by simp
  have Npos: "0 < ?N" using kN ne by (cases rs) simp_all
  \<comment> \<open>no rounded quantity falls below the smallest normal number\<close>
  have "real (?k + 2) \<le> 2 ^ 52"
  proof -
    have "real ?k = of_int (int ?k)" by simp
    also have "\<dots> \<le> of_int ?N" using kN by (simp only: of_int_le_iff)
    also have "\<dots> \<le> of_int (2 ^ 51)" using total by (simp only: of_int_le_iff)
    finally have "real ?k \<le> 2 ^ 51" by simp
    moreover have "real (?k + 2) = real ?k + 2" by simp
    moreover have "(2::real) ^ 51 + 2 \<le> 2 ^ 52" by simp
    ultimately show ?thesis by linarith
  qed
  then have half: "1 / 2 \<le> ?l ^ (?k + 2)" by (rule roundoff_power_half)
  have l2: "?l ^ (?k + 2) \<le> ?l\<^sup>2" using l by (intro power_decreasing) simp_all
  have a2: "2 powi (- 1022) \<le> a * ?l\<^sup>2"
  proof -
    have "a * (1 / 2) \<le> a * ?l\<^sup>2" using half l2 apos by (intro mult_left_mono) simp_all
    with small mn mnpos show ?thesis by linarith
  qed
  have qnormal: "2 powi (- 1022) \<le> a * ?l ^ (?k + 2) / ?h"
  proof -
    have "a * (1 / 2) \<le> a * ?l ^ (?k + 2)" using half apos by (intro mult_left_mono) simp_all
    then have "a * (1 / 2) / 2 \<le> a * ?l ^ (?k + 2) / ?h"
      using h apos by (intro frac_le) simp_all
    with small mn mnpos show ?thesis by linarith
  qed
  \<comment> \<open>the products and their sum\<close>
  obtain r1 rest where rs: "rs = r1 # rest" using ne by (cases rs) auto
  let ?t = "\<lambda>n. rnd (f64_of_int n * a)"
  have accs: "f64_accuracies_of rs = Inr (map (\<lambda>r. SFloat (?t (fst r))) rs)"
    using same by (simp add: f64_accuracies_same)
  have n1: "0 < fst r1" and nrest: "\<forall>n \<in> set (map fst rest). 0 < n"
    using same rs by simp_all
  note t1 = product_bounds [OF n1 a2]
  note r1b = rnd_bounds [OF t1(3)]
  have first: "f64_add (SInt 0) (SFloat (?t (fst r1))) = Inr (SFloat (rnd (?t (fst r1))))"
    by (simp add: f64_add_def f64_of_int_def rnd_def)
  have B: "0 \<le> of_int (fst r1) * a" using n1 apos by simp
  have lo3: "of_int (fst r1) * a * ?l ^ 3 \<le> rnd (?t (fst r1))"
  proof -
    have "of_int (fst r1) * a * ?l ^ 3 = of_int (fst r1) * a * ?l\<^sup>2 * ?l"
      by (simp add: power3_eq_cube power2_eq_square)
    also have "\<dots> \<le> ?t (fst r1) * ?l" using t1(1) l by (intro mult_right_mono) simp_all
    also note r1b(1)
    finally show ?thesis .
  qed
  have hi3: "rnd (?t (fst r1)) \<le> of_int (fst r1) * a * ?h ^ 3"
  proof -
    note r1b(2)
    also have "?t (fst r1) * ?h \<le> of_int (fst r1) * a * ?h\<^sup>2 * ?h"
      using t1(2) h by (intro mult_right_mono) simp_all
    also have "\<dots> = of_int (fst r1) * a * ?h ^ 3"
      by (simp add: power3_eq_cube power2_eq_square)
    finally show ?thesis .
  qed
  from f64_sum_from_bounds [OF nrest a2 B _ lo3 hi3]
  obtain s where s: "f64_sum_from (SFloat (rnd (?t (fst r1))))
        (map (\<lambda>n. SFloat (?t n)) (map fst rest)) = Inr (SFloat s)"
    and slo: "(of_int (fst r1) * a + of_int (sum_list (map fst rest)) * a)
                * ?l ^ (3 + length (map fst rest)) \<le> s"
    and shi: "s \<le> (of_int (fst r1) * a + of_int (sum_list (map fst rest)) * a)
                * ?h ^ (3 + length (map fst rest))"
    by auto
  have Na: "of_int (fst r1) * a + of_int (sum_list (map fst rest)) * a = of_int ?N * a"
    by (simp add: rs distrib_right)
  have len: "3 + length (map fst rest) = ?k + 2" by (simp add: rs)
  have sum: "f64_sum (map (\<lambda>r. SFloat (?t (fst r))) rs) = Inr (SFloat s)"
    using s by (simp add: f64_sum_def rs first o_def)
  have slo': "of_int ?N * a * ?l ^ (?k + 2) \<le> s" using slo unfolding Na len .
  have shi': "s \<le> of_int ?N * a * ?h ^ (?k + 2)" using shi unfolding Na len .
  \<comment> \<open>the division\<close>
  note y = f64_of_int_bounds [OF Npos]
  have Nr: "(0::real) < of_int ?N" using Npos by simp
  have ypos: "0 < f64_of_int ?N"
  proof -
    have "0 < of_int ?N * ?l" using Nr l by simp
    with y(1) show ?thesis by linarith
  qed
  have s0: "0 \<le> s"
  proof -
    have "0 \<le> of_int ?N * a * ?l ^ (?k + 2)" using Nr apos l by simp
    with slo' show ?thesis by linarith
  qed
  have qlo: "a * ?l ^ (?k + 2) / ?h \<le> s / f64_of_int ?N"
  proof -
    have "of_int ?N * a * ?l ^ (?k + 2) / (of_int ?N * ?h) \<le> s / f64_of_int ?N"
      by (rule frac_le [OF s0 slo' ypos y(2)])
    moreover have "of_int ?N * a * ?l ^ (?k + 2) / (of_int ?N * ?h) = a * ?l ^ (?k + 2) / ?h"
      using Nr by simp
    ultimately show ?thesis by simp
  qed
  have qhi: "s / f64_of_int ?N \<le> a * ?h ^ (?k + 2) / ?l"
  proof -
    have w: "0 < of_int ?N * ?l" using Nr l by simp
    have top: "0 \<le> of_int ?N * a * ?h ^ (?k + 2)" using s0 shi' by linarith
    have "s / f64_of_int ?N \<le> of_int ?N * a * ?h ^ (?k + 2) / (of_int ?N * ?l)"
      by (rule frac_le [OF top shi' w y(1)])
    moreover have "of_int ?N * a * ?h ^ (?k + 2) / (of_int ?N * ?l) = a * ?h ^ (?k + 2) / ?l"
      using Nr by simp
    ultimately show ?thesis by simp
  qed
  have normal: "2 powi (- 1022) \<le> s / f64_of_int ?N" using qnormal qlo by linarith
  note q = rnd_bounds [OF normal]
  have div: "f64_truediv (SFloat s) (SInt ?N) = Inr (SFloat (rnd (s / f64_of_int ?N)))"
    using ypos by (simp add: f64_truediv_def)
  have rlo: "a * ?l ^ (?k + 3) / ?h \<le> rnd (s / f64_of_int ?N)"
  proof -
    have "a * ?l ^ (?k + 3) / ?h = a * ?l ^ (?k + 2) / ?h * ?l"
      by (simp add: power_add power2_eq_square power3_eq_cube)
    also have "\<dots> \<le> s / f64_of_int ?N * ?l" using qlo l by (intro mult_right_mono) simp_all
    also note q(1)
    finally show ?thesis .
  qed
  have rhi: "rnd (s / f64_of_int ?N) \<le> a * ?h ^ (?k + 3) / ?l"
  proof -
    note q(2)
    also have "s / f64_of_int ?N * ?h \<le> a * ?h ^ (?k + 2) / ?l * ?h"
      using qhi h by (intro mult_right_mono) simp_all
    also have "\<dots> = a * ?h ^ (?k + 3) / ?l"
      by (simp add: power_add power2_eq_square power3_eq_cube)
    finally show ?thesis .
  qed
  have "weighted_average_f64 rs = Inr [''accuracy'' \<mapsto> SFloat (rnd (s / f64_of_int ?N))]"
    by (simp add: weighted_average_f64_def bind_err_def accs sum f64_sum_examples div)
  with rlo rhi show ?thesis by blast
qed

lemma f64_sum_from_zeros:
  "f64_sum_from (SFloat 0) (map (\<lambda>n. SFloat 0) ns) = Inr (SFloat 0)"
  by (induction ns) (simp_all add: f64_add_def rnd_def)

lemma weighted_average_f64_zero:
  assumes ne: "rs \<noteq> []"
    and same: "\<forall>r \<in> set rs. 0 < fst r \<and> snd r ''accuracy'' = Some (SFloat 0)"
  shows "weighted_average_f64 rs = Inr [''accuracy'' \<mapsto> SFloat 0]"
proof -
  obtain r1 rest where rs: "rs = r1 # rest" using ne by (cases rs) auto
  from same have acc0: "\<forall>r \<in> set rs. snd r ''accuracy'' = Some (SFloat 0)" by simp
  have accs: "f64_accuracies_of rs = Inr (map (\<lambda>r. SFloat 0) rs)"
    by (simp add: f64_accuracies_same [OF acc0] rnd_def)
  have sum: "f64_sum (map (\<lambda>r. SFloat 0) rs) = Inr (SFloat 0)"
    by (simp add: rs f64_sum_def f64_add_def f64_of_int_def rnd_def f64_sum_from_zeros)
  from same have pos: "\<forall>n \<in> set (map fst rs). 0 < n" by simp
  have Npos: "0 < sum_list (map fst rs)"
    using length_le_sum_pos [OF pos] ne by (cases rs) simp_all
  then have "0 < real_of_int (sum_list (map fst rs)) * (1 - unit_roundoff)"
    using unit_roundoff_range by simp
  with f64_of_int_bounds(1) [OF Npos]
  have "0 < f64_of_int (sum_list (map fst rs))" by linarith
  then have div: "f64_truediv (SFloat 0) (SInt (sum_list (map fst rs))) = Inr (SFloat 0)"
    by (simp add: f64_truediv_def rnd_def)
  show ?thesis
    by (simp add: weighted_average_f64_def bind_err_def accs sum f64_sum_examples div)
qed

text \<open>
  Two clients report the double written \<^verbatim>\<open>0.7\<close> for 2 and for 5 examples: the products
  are \<^verbatim>\<open>1.4\<close> and \<^verbatim>\<open>3.5\<close>, their sum rounds to \<^verbatim>\<open>4.9\<close>, and \<^verbatim>\<open>4.9 / 7\<close> rounds
  to \<^verbatim>\<open>0.7000000000000001\<close>, the next double after \<^verbatim>\<open>0.7\<close>. One client reporting
  \<^verbatim>\<open>0.1\<close> for 3 examples gets \<^verbatim>\<open>0.10000000000000002\<close>, with no float addition
  involved.
\<close>

theorem weighted_average_not_idempotent_counterexample:
  "rnd 0.7 = 3152519739159347 / 2 ^ 52
   \<and> weighted_average_f64
       [(2, [''accuracy'' \<mapsto> SFloat (rnd 0.7)]), (5, [''accuracy'' \<mapsto> SFloat (rnd 0.7)])] =
     Inr [''accuracy'' \<mapsto> SFloat (rnd 0.7 + 1 / 2 ^ 53)]
   \<and> rnd 0.1 = 3602879701896397 / 2 ^ 55
   \<and> weighted_average_f64 [(3, [''accuracy'' \<mapsto> SFloat (rnd 0.1)])] =
     Inr [''accuracy'' \<mapsto> SFloat (rnd 0.1 + 1 / 2 ^ 56)]"
proof -
  have a: "rnd 0.7 = 3152519739159347 / 2 ^ 52"
    by (simp add: weighted_average_f64_def bind_err_def dict_getitem_def f64_sum_def f64_add_def
        examples_of_def f64_truediv_def f64_of_int_def rnd_def expo_def expo_down.simps expo_up.simps
        round_half_even_def Let_def)
  have b: "rnd 0.1 = 3602879701896397 / 2 ^ 55"
    by (simp add: weighted_average_f64_def bind_err_def dict_getitem_def f64_sum_def f64_add_def
        examples_of_def f64_truediv_def f64_of_int_def rnd_def expo_def expo_down.simps expo_up.simps
        round_half_even_def Let_def)
  have 1: "weighted_average_f64
       [(2, [''accuracy'' \<mapsto> SFloat (3152519739159347 / 2 ^ 52)]),
        (5, [''accuracy'' \<mapsto> SFloat (3152519739159347 / 2 ^ 52)])] =
     Inr [''accuracy'' \<mapsto> SFloat (3152519739159347 / 2 ^ 52 + 1 / 2 ^ 53)]"
    by (simp add: weighted_average_f64_def bind_err_def dict_getitem_def f64_sum_def f64_add_def
        examples_of_def f64_truediv_def f64_of_int_def rnd_def expo_def expo_down.simps expo_up.simps
        round_half_even_def Let_def)
  have 2: "weighted_average_f64 [(3, [''accuracy'' \<mapsto> SFloat (3602879701896397 / 2 ^ 55)])] =
     Inr [''accuracy'' \<mapsto> SFloat (3602879701896397 / 2 ^ 55 + 1 / 2 ^ 56)]"
    by (simp add: weighted_average_f64_def bind_err_def dict_getitem_def f64_sum_def f64_add_def
        examples_of_def f64_truediv_def f64_of_int_def rnd_def expo_def expo_down.simps expo_up.simps
        round_half_even_def Let_def)
  show ?thesis unfolding a b using 1 2 by simp
qed

text \<open>
  Claim C5, as the code has it. Weighted averaging is idempotent on agreement up to
  rounding: for every non-empty list of results with positive sample counts, of total at
  most \<open>2 ^ 51\<close>, in which every client reports the same accuracy \<open>a\<close>, with \<open>a = 0\<close> or
  \<open>2 ^ -1020 \<le> a \<le> 1\<close>, the aggregated accuracy \<open>r\<close> that the double-precision
  computation returns satisfies
  \<open>a * (1 - u) ^ (k + 3) / (1 + u) \<le> r \<le> a * (1 + u) ^ (k + 3) / (1 - u)\<close>,
  where \<open>u = 2 ^ -53\<close> is the unit roundoff and \<open>k\<close> the number of results: each product
  is rounded twice, each addition and the division once, and so is the conversion of the
  total count. It is \<open>a\<close> itself when \<open>a = 0\<close>, and in exact arithmetic.
\<close>

theorem weighted_average_idempotent_up_to_rounding:
  assumes "rs \<noteq> []"
    and "\<forall>r \<in> set rs. 0 < fst r \<and> snd r ''accuracy'' = Some (SFloat a)"
    and "a = 0 \<or> 2 powi (- 1020) \<le> a" and "a \<le> 1"
    and "sum_list (map fst rs) \<le> 2 ^ 51"
  shows "(\<exists>r. weighted_average_f64 rs = Inr [''accuracy'' \<mapsto> SFloat r]
          \<and> a * (1 - unit_roundoff) ^ (length rs + 3) / (1 + unit_roundoff) \<le> r
          \<and> r \<le> a * (1 + unit_roundoff) ^ (length rs + 3) / (1 - unit_roundoff))
       \<and> weighted_average rs = Inr [''accuracy'' \<mapsto> SFloat a]"
proof (intro conjI)
  show "weighted_average rs = Inr [''accuracy'' \<mapsto> SFloat a]"
    using assms(1, 2) by (rule weighted_average_exact_idempotent)
next
  show "\<exists>r. weighted_average_f64 rs = Inr [''accuracy'' \<mapsto> SFloat r]
          \<and> a * (1 - unit_roundoff) ^ (length rs + 3) / (1 + unit_roundoff) \<le> r
          \<and> r \<le> a * (1 + unit_roundoff) ^ (length rs + 3) / (1 - unit_roundoff)"
  proof (cases "a = 0")
    case True
    with assms(1, 2) have "weighted_average_f64 rs = Inr [''accuracy'' \<mapsto> SFloat 0]"
      by (intro weighted_average_f64_zero) simp_all
    with True show ?thesis by (intro exI [of _ 0]) simp
  next
    case False
    with assms(3) have "2 powi (- 1020) \<le> a" by simp
    with assms(1, 2) show ?thesis using assms(5) by (rule weighted_average_f64_bounds)
  qed
qed

theorem weighted_average_idempotent_up_to_rounding_witness:
  "(\<exists>r. weighted_average_f64
          [(2, [''accuracy'' \<mapsto> SFloat (3152519739159347 / 2 ^ 52)]),
           (5, [''accuracy'' \<mapsto> SFloat (3152519739159347 / 2 ^ 52)])] =
        Inr [''accuracy'' \<mapsto> SFloat r]
      \<and> 3152519739159347 / 2 ^ 52 * (1 - unit_roundoff) ^ 5 / (1 + unit_roundoff) \<le> r
      \<and> r \<le> 3152519739159347 / 2 ^ 52 * (1 + unit_roundoff) ^ 5 / (1 - unit_roundoff))
   \<and> weighted_average
        [(2, [''accuracy'' \<mapsto> SFloat (3152519739159347 / 2 ^ 52)]),
         (5, [''accuracy'' \<mapsto> SFloat (3152519739159347 / 2 ^ 52)])] =
      Inr [''accuracy'' \<mapsto> SFloat (3152519739159347 / 2 ^ 52)]"
proof -
  let ?a = "3152519739159347 / 2 ^ 52 :: real"
  let ?rs = "[(2::int, [''accuracy'' \<mapsto> SFloat ?a]), (5, [''accuracy'' \<mapsto> SFloat ?a])]"
  have h1: "?rs \<noteq> []" by simp
  have h2: "\<forall>r \<in> set ?rs. 0 < fst r \<and> snd r ''accuracy'' = Some (SFloat ?a)" by simp
  have "(2::real) powi (- 1020) \<le> 2 powi (- 1)"
    by (intro power_int_increasing) simp_all
  also have "\<dots> \<le> ?a" by simp
  finally have h3: "?a = 0 \<or> 2 powi (- 1020) \<le> ?a" by (rule disjI2)
  have h4: "?a \<le> 1" by simp
  have h5: "sum_list (map fst ?rs) \<le> 2 ^ 51" by simp
  have len: "length ?rs + 3 = 5" by simp
  from weighted_average_idempotent_up_to_rounding [OF h1 h2 h3 h4 h5]
  show ?thesis unfolding len .
qed

section \<open>Facts about indexing and about results that agree on the accuracy\<close>

lemma list_getitem_char:
  "list_getitem xs i =
     (if - int (length xs) \<le> i \<and> i < int (length xs)
      then Inr (xs ! nat (if 0 \<le> i then i else int (length xs) + i))
      else Inl IndexError)"
  by (auto simp: list_getitem_def)
lemma accuracies_of_agree:
  "map (\<lambda>(n, m). (n, m ''accuracy'')) rs = map (\<lambda>(n, m). (n, m ''accuracy'')) rs' \<Longrightarrow>
   accuracies_of rs = accuracies_of rs'"
proof (induction rs arbitrary: rs')
  case Nil
  then show ?case by simp
next
  case (Cons r rs)
  then obtain r' rs'' where rs': "rs' = r' # rs''" by (cases rs') auto
  obtain n m where r: "r = (n, m)" by (cases r)
  obtain n' m' where r': "r' = (n', m')" by (cases r')
  from Cons.prems rs' r r' have hd: "n = n'" "m ''accuracy'' = m' ''accuracy''"
    and tl: "map (\<lambda>(n, m). (n, m ''accuracy'')) rs = map (\<lambda>(n, m). (n, m ''accuracy'')) rs''"
    by simp_all
  from Cons.IH [OF tl] hd rs' r r' show ?case
    by (simp add: dict_getitem_def split: option.splits)
qed

lemma examples_of_agree:
  "map (\<lambda>(n, m). (n, m ''accuracy'')) rs = map (\<lambda>(n, m). (n, m ''accuracy'')) rs' \<Longrightarrow>
   examples_of rs = examples_of rs'"
proof -
  assume "map (\<lambda>(n, m). (n, m ''accuracy'')) rs = map (\<lambda>(n, m). (n, m ''accuracy'')) rs'"
  then have "map fst (map (\<lambda>(n, m). (n, m ''accuracy'')) rs) =
             map fst (map (\<lambda>(n, m). (n, m ''accuracy'')) rs')" by simp
  then have "map fst rs = map fst rs'" by (simp add: o_def case_prod_unfold)
  then have "map SInt (map fst rs) = map SInt (map fst rs')" by simp
  then show ?thesis by (simp add: examples_of_def o_def case_prod_unfold)
qed

text \<open>
  Claim C10. Metric aggregation depends only on each result's sample count and its
  \<^verbatim>\<open>"accuracy"\<close> metric: two lists that agree, result by result, on the sample count
  and on the \<^verbatim>\<open>"accuracy"\<close> entry have the same outcome whatever their other metrics;
  a list in which some client's metrics lack \<^verbatim>\<open>"accuracy"\<close> raises
  \<^verbatim>\<open>KeyError("accuracy")\<close>; and every result the client's \<^verbatim>\<open>evaluate\<close> returns has
  the metrics \<^verbatim>\<open>{"accuracy": a}\<close> for a float \<open>a\<close>.
\<close>

theorem weighted_average_reads_accuracy_only:
  "(map (\<lambda>(n, m). (n, m ''accuracy'')) rs = map (\<lambda>(n, m). (n, m ''accuracy'')) rs' \<longrightarrow>
      weighted_average rs = weighted_average rs')
   \<and> ((\<exists>r \<in> set rs. snd r ''accuracy'' = None) \<longrightarrow>
      weighted_average rs = Inl (KeyError ''accuracy''))
   \<and> (fst (evaluate h self parameters config w) = Inr ((loss, n, metrics), self', w') \<longrightarrow>
      (\<exists>a. metrics = [''accuracy'' \<mapsto> SFloat a]))"
proof (intro conjI impI)
  assume "map (\<lambda>(n, m). (n, m ''accuracy'')) rs = map (\<lambda>(n, m). (n, m ''accuracy'')) rs'"
  then show "weighted_average rs = weighted_average rs'"
    by (simp add: weighted_average_def accuracies_of_agree [of rs rs']
        examples_of_agree [of rs rs'])
next
  assume "\<exists>r \<in> set rs. snd r ''accuracy'' = None"
  then show "weighted_average rs = Inl (KeyError ''accuracy'')"
    by (simp add: weighted_average_char)
next
  assume "fst (evaluate h self parameters config w) = Inr ((loss, n, metrics), self', w')"
  then show "\<exists>a. metrics = [''accuracy'' \<mapsto> SFloat a]"
    by (auto simp: evaluate_def dict_getitem_def bind_err_def set_parameters_def Let_def
        split: option.splits sum.splits prod.splits)
qed

theorem weighted_average_reads_accuracy_only_witness:
  "weighted_average [(2, [''loss'' \<mapsto> SFloat 3, ''accuracy'' \<mapsto> SFloat 1])] =
     weighted_average [(2, [''accuracy'' \<mapsto> SFloat 1])]
   \<and> weighted_average [(2, [''accuracy'' \<mapsto> SFloat 1]), (3, [''loss'' \<mapsto> SFloat 1])] =
       Inl (KeyError ''accuracy'')
   \<and> fst (evaluate toy_helpers toy_client [5, 6] (fit_config 1 None) toy_world) =
       Inr ((0.25, 2, [''accuracy'' \<mapsto> SFloat 0.75]),
            toy_client\<lparr>net := [5, 6]\<rparr>,
            toy_world\<lparr>files := [(''client_0_eval_metrics.csv'', [(0.25, 0.75)])],
                      stdout := [EvaluateLine (SInt 1) (fit_config 1 None),
                                 EvalResultLine 0.25 0.75]\<rparr>)"
proof -
  let ?a = "[(2::int, [''loss'' \<mapsto> SFloat 3, ''accuracy'' \<mapsto> SFloat 1])]"
  let ?b = "[(2::int, [''accuracy'' \<mapsto> SFloat 1])]"
  let ?c = "[(2::int, [''accuracy'' \<mapsto> SFloat 1]), (3, [''loss'' \<mapsto> SFloat 1])]"
  have agree: "map (\<lambda>(n, m). (n, m ''accuracy'')) ?a = map (\<lambda>(n, m). (n, m ''accuracy'')) ?b"
    by simp
  have missing: "\<exists>r \<in> set ?c. snd r ''accuracy'' = None" by simp
  have run: "fst (evaluate toy_helpers toy_client [5, 6] (fit_config 1 None) toy_world) =
       Inr ((0.25, 2, [''accuracy'' \<mapsto> SFloat 0.75]),
            toy_client\<lparr>net := [5, 6]\<rparr>,
            toy_world\<lparr>files := [(''client_0_eval_metrics.csv'', [(0.25, 0.75)])],
                      stdout := [EvaluateLine (SInt 1) (fit_config 1 None),
                                 EvalResultLine 0.25 0.75]\<rparr>)"
    by (simp add: toy_helpers_def toy_client_def toy_world_def evaluate_def dict_getitem_def bind_err_def set_parameters_def
        current_device_def print_line_def eval_metrics_file_def fit_config_def LOCAL_EPOCHS_def Let_def)
  have 1: "weighted_average ?a = weighted_average ?b"
    by (rule mp [OF conjunct1 [OF weighted_average_reads_accuracy_only [where rs = ?a and rs' = ?b]]
          agree])
  have 2: "weighted_average ?c = Inl (KeyError ''accuracy'')"
    by (rule mp [OF conjunct1 [OF conjunct2
          [OF weighted_average_reads_accuracy_only [where rs = ?c]]] missing])
  have 3: "\<exists>a. [''accuracy'' \<mapsto> SFloat 0.75] = [''accuracy'' \<mapsto> SFloat a]"
    by (rule mp [OF conjunct2 [OF conjunct2 [OF weighted_average_reads_accuracy_only]] run])
  from 1 2 3 run show ?thesis by (intro conjI)
qed

section \<open>Properties of the client's \<^verbatim>\<open>fit\<close>\<close>

text \<open>
  One round of local training on the instance: the epoch metrics \<open>[(0.5, 0.9)]\<close> go to
  the file \<^verbatim>\<open>client_0_train_metrics.csv\<close>, and the metrics mapping that \<^verbatim>\<open>fit\<close>
  returns is the empty dictionary.
\<close>

theorem fit_metrics_counterexample:
  "fit toy_helpers toy_client [5, 6] (fit_config 1 None) toy_world =
     (Inr (([6, 7], 3, Map.empty),
           \<lparr>client_id = IdStr ''0'', net = [6, 7],
            train_dataloader = [10, 11, 12], test_dataloader = [20, 21]\<rparr>,
           \<lparr>files = [(''client_0_train_metrics.csv'', [(0.5, 0.9)])],
            stdout = [FitLine (SInt 1) (fit_config 1 None)],
            cuda_is_available = False\<rparr>),
      fit_config 1 None)"
  by (simp add: toy_helpers_def toy_client_def toy_world_def fit_def dict_getitem_def bind_err_def set_parameters_def
      get_parameters_def current_device_def print_line_def train_metrics_file_def fit_config_def
      LOCAL_EPOCHS_def Let_def)

text \<open>
  Claim C3, as the code has it. A call to a client's \<^verbatim>\<open>fit\<close> returns exactly when
  the configuration has both keys, \<^verbatim>\<open>int(local_epochs)\<close> succeeds and the helpers do;
  the result then holds the parameters of the net after the local training just
  performed, the number of examples of the client's training set, and an empty metrics
  mapping; the epoch-level metrics of that training are written to the client's
  \<^verbatim>\<open>client_<id>_train_metrics.csv\<close>.
\<close>

theorem fit_result:
  "fst (fit h self parameters config w) = Inr ((ps, n, metrics), self', w') \<longleftrightarrow>
     (\<exists>server_round local_epochs epochs net1 net2 metrics_list files2.
         config ''server_round'' = Some server_round
       \<and> config ''local_epochs'' = Some local_epochs
       \<and> set_parameters_h h (net self) parameters = Inr net1
       \<and> py_int local_epochs = Inr epochs
       \<and> train_h h net1 (train_dataloader self) epochs (current_device w) = Inr (net2, metrics_list)
       \<and> save_metrics_to_csv_h h (train_metrics_file self) metrics_list (files w) = Inr files2
       \<and> ps = get_parameters_h h net2
       \<and> n = int (dataset_len h (train_dataloader self))
       \<and> metrics = Map.empty
       \<and> self' = self\<lparr>net := net2\<rparr>
       \<and> w' = w\<lparr>stdout := stdout w @ [FitLine server_round config], files := files2\<rparr>)"
  by (auto simp: fit_def dict_getitem_def bind_err_def set_parameters_def get_parameters_def
      print_line_def train_metrics_file_def Let_def
      split: option.splits sum.splits prod.splits)


theorem fit_result_witness:
  "fst (fit toy_helpers toy_client [5, 6] (fit_config 1 None) toy_world) =
     Inr (([6, 7], 3, Map.empty),
          toy_client\<lparr>net := [6, 7]\<rparr>,
          toy_world\<lparr>stdout := stdout toy_world @ [FitLine (SInt 1) (fit_config 1 None)],
                    files := [(''client_0_train_metrics.csv'', [(0.5, 0.9)])]\<rparr>)"
  by (rule fit_result [THEN iffD2])
    (simp add: toy_helpers_def toy_client_def toy_world_def fit_config_def LOCAL_EPOCHS_def
      current_device_def train_metrics_file_def)

text \<open>
  Claim C7. A call to \<^verbatim>\<open>fit\<close> leaves the configuration dictionary as it was, whether
  it returns or raises.
\<close>

theorem fit_leaves_config:
  "snd (fit h self parameters config w) = config"
  by (simp add: fit_def set_parameters_def Let_def split: sum.splits)

theorem fit_leaves_config_witness:
  "snd (fit toy_helpers toy_client [5, 6] (fit_config 1 None) toy_world) = fit_config 1 None
   \<and> snd (fit toy_helpers toy_client [5, 6] Map.empty toy_world) = Map.empty"
  using fit_leaves_config [of toy_helpers toy_client "[5, 6]" "fit_config 1 None" toy_world]
    fit_leaves_config [of toy_helpers toy_client "[5, 6]" Map.empty toy_world]
  by simp

section \<open>Properties of \<^verbatim>\<open>fit_config\<close>\<close>

text \<open>
  Claim C6. For every round number \<open>r\<close>, the configuration built for round \<open>r\<close> maps
  \<^verbatim>\<open>"server_round"\<close> to \<open>r\<close> and \<^verbatim>\<open>"local_epochs"\<close> to the constant
  \<^verbatim>\<open>LOCAL_EPOCHS\<close> = 1, the same in every round, unless the caller passes another epoch
  count; it has no other key.
\<close>

theorem fit_config_round:
  "fit_config r None ''server_round'' = Some (SInt r)
   \<and> fit_config r None ''local_epochs'' = Some (SInt LOCAL_EPOCHS)
   \<and> LOCAL_EPOCHS = 1
   \<and> fit_config r None ''local_epochs'' = fit_config r' None ''local_epochs''
   \<and> fit_config r (Some e) ''local_epochs'' = Some (SInt e)
   \<and> dom (fit_config r None) = {''server_round'', ''local_epochs''}
   \<and> on_fit_config_fn r = fit_config r None"
  by (auto simp: fit_config_def LOCAL_EPOCHS_def on_fit_config_fn_def)

theorem fit_config_round_witness:
  "fit_config 3 None ''server_round'' = Some (SInt 3)
   \<and> fit_config 3 None ''local_epochs'' = Some (SInt 1)
   \<and> fit_config 4 None ''local_epochs'' = Some (SInt 1)"
  using fit_config_round [of 3 4] fit_config_round [of 4 3]
  by simp

section \<open>Properties of the client factories\<close>

text \<open>
  Claim C9. With the two per-client dataset lists of length \<^verbatim>\<open>NUM_CLIENTS\<close> = 2,
  \<^verbatim>\<open>client_fn_gpu(cid)\<close> raises \<^verbatim>\<open>ValueError\<close> when \<^verbatim>\<open>int(cid)\<close> does; when
  \<^verbatim>\<open>int(cid)\<close> is \<open>i\<close> with \<open>-NUM_CLIENTS \<le> i < NUM_CLIENTS\<close> it returns the client
  whose dataloaders are the \<open>i\<close>-th entries of the lists (counted from the end for a
  negative \<open>i\<close>); for any other \<open>i\<close> the indexing raises \<^verbatim>\<open>IndexError\<close>.
\<close>

theorem client_fn_gpu_domain:
  assumes "int (length (client_train_datasets g)) = NUM_CLIENTS"
    and "int (length (client_test_datasets g)) = NUM_CLIENTS"
  shows "case py_int_str cid of
           Inl e \<Rightarrow> client_fn_gpu env g cid = Inl e
         | Inr i \<Rightarrow>
             if - NUM_CLIENTS \<le> i \<and> i < NUM_CLIENTS
             then client_fn_gpu env g cid =
                    Inr \<lparr>client_id = IdStr cid, net = new_net env,
                         train_dataloader =
                           client_train_datasets g ! nat (if 0 \<le> i then i else NUM_CLIENTS + i),
                         test_dataloader =
                           client_test_datasets g ! nat (if 0 \<le> i then i else NUM_CLIENTS + i)\<rparr>
             else client_fn_gpu env g cid = Inl IndexError"
  using assms
  by (auto simp: client_fn_gpu_def bind_err_def list_getitem_char Let_def split: sum.splits)

theorem client_fn_gpu_domain_witness:
  "NUM_CLIENTS = 2
   \<and> client_fn_gpu toy_env toy_globals ''1'' =
       Inr \<lparr>client_id = IdStr ''1'', net = [0, 0],
            train_dataloader = [13, 14], test_dataloader = [22]\<rparr>
   \<and> client_fn_gpu toy_env toy_globals ''-2'' =
       Inr \<lparr>client_id = IdStr ''-2'', net = [0, 0],
            train_dataloader = [10, 11, 12], test_dataloader = [20, 21]\<rparr>
   \<and> client_fn_gpu toy_env toy_globals ''2'' = Inl IndexError
   \<and> client_fn_gpu toy_env toy_globals ''-3'' = Inl IndexError
   \<and> client_fn_gpu toy_env toy_globals ''one'' = Inl ValueError"
proof -
  have l1: "int (length (client_train_datasets toy_globals)) = NUM_CLIENTS"
    and l2: "int (length (client_test_datasets toy_globals)) = NUM_CLIENTS"
    by (simp_all add: toy_globals_def NUM_CLIENTS_def)
  have p1: "py_int_str ''1'' = Inr 1" 
    by (simp add: py_int_str_def is_space_def is_digit_or_underscore_def is_digit_def
        digits_value_def digit_val_def Let_def)
  have p2: "py_int_str ''-2'' = Inr (-2)" 
    by (simp add: py_int_str_def is_space_def is_digit_or_underscore_def is_digit_def
        digits_value_def digit_val_def Let_def)
  have p3: "py_int_str ''2'' = Inr 2" 
    by (simp add: py_int_str_def is_space_def is_digit_or_underscore_def is_digit_def
        digits_value_def digit_val_def Let_def)
  have p4: "py_int_str ''-3'' = Inr (-3)" 
    by (simp add: py_int_str_def is_space_def is_digit_or_underscore_def is_digit_def
        digits_value_def digit_val_def Let_def)
  have p5: "py_int_str ''one'' = Inl ValueError" 
    by (simp add: py_int_str_def is_space_def is_digit_or_underscore_def is_digit_def
        digits_value_def digit_val_def Let_def)
  have n: "new_net toy_env = [0, 0]" by (simp add: new_net_def toy_env_def)
  show ?thesis
    using client_fn_gpu_domain [OF l1 l2, where cid = "''1''" and env = toy_env]
      client_fn_gpu_domain [OF l1 l2, where cid = "''-2''" and env = toy_env]
      client_fn_gpu_domain [OF l1 l2, where cid = "''2''" and env = toy_env]
      client_fn_gpu_domain [OF l1 l2, where cid = "''-3''" and env = toy_env]
      client_fn_gpu_domain [OF l1 l2, where cid = "''one''" and env = toy_env]
    unfolding p1 p2 p3 p4 p5 n
    by (simp add: NUM_CLIENTS_def toy_globals_def)
qed

text \<open>
  Two runs of the client-mode entry point on the same model and data that draw 3 and 7
  get different client ids and write to different metric files.
\<close>

theorem random_client_id_counterexample:
  "client_id (client_device_main toy_env 3) \<noteq> client_id (client_device_main toy_env 7)
   \<and> train_metrics_file (client_device_main toy_env 3) = ''client_3_train_metrics.csv''
   \<and> train_metrics_file (client_device_main toy_env 7) = ''client_7_train_metrics.csv''"
  by (simp add: client_device_main_def toy_env_def train_metrics_file_def str_of_int_def
      digit_char_def)

text \<open>
  Claim C8, as the code has it. In simulation mode the client id is the \<^verbatim>\<open>cid\<close> that
  the orchestrator supplies: a client built by \<^verbatim>\<open>client_fn_gpu(cid)\<close> has the id
  \<open>cid\<close> and the metric files \<^verbatim>\<open>client_<cid>_train_metrics.csv\<close> and
  \<^verbatim>\<open>client_<cid>_eval_metrics.csv\<close>. In client mode the id is the number drawn by
  \<^verbatim>\<open>random.randint(0, 1000)\<close>, which names the metric files; two runs assign the
  same id exactly when they draw the same number.
\<close>

theorem client_id_assignment:
  "(client_fn_gpu env g cid = Inr c \<longrightarrow>
      client_id c = IdStr cid
      \<and> train_metrics_file c = ''client_'' @ cid @ ''_train_metrics.csv''
      \<and> eval_metrics_file c = ''client_'' @ cid @ ''_eval_metrics.csv'')
   \<and> client_id (client_device_main env' draw) = IdInt draw
   \<and> train_metrics_file (client_device_main env' draw) =
       ''client_'' @ str_of_int draw @ ''_train_metrics.csv''
   \<and> eval_metrics_file (client_device_main env' draw) =
       ''client_'' @ str_of_int draw @ ''_eval_metrics.csv''
   \<and> (client_id (client_device_main env' d1) = client_id (client_device_main env' d2)
        \<longleftrightarrow> d1 = d2)"
  by (auto simp: client_fn_gpu_def bind_err_def client_device_main_def train_metrics_file_def
      eval_metrics_file_def Let_def split: sum.splits prod.splits)

theorem client_id_assignment_witness:
  "client_fn_gpu toy_env toy_globals ''1'' =
       Inr \<lparr>client_id = IdStr ''1'', net = [0, 0],
            train_dataloader = [13, 14], test_dataloader = [22]\<rparr>
   \<and> train_metrics_file
        \<lparr>client_id = IdStr ''1'', net = [0::int, 0],
         train_dataloader = [13::nat, 14], test_dataloader = [22]\<rparr> = ''client_1_train_metrics.csv''
   \<and> client_id (client_device_main toy_env 7) = IdInt 7"
proof -
  have run: "client_fn_gpu toy_env toy_globals ''1'' =
       Inr \<lparr>client_id = IdStr ''1'', net = [0, 0],
            train_dataloader = [13, 14], test_dataloader = [22]\<rparr>"
    by (simp add: client_fn_gpu_def bind_err_def py_int_str_def is_space_def is_digit_or_underscore_def is_digit_def
        digits_value_def digit_val_def Let_def
        list_getitem_def new_net_def
        toy_env_def toy_globals_def)
  from client_id_assignment [where env = toy_env and g = toy_globals and cid = "''1''"
      and env' = toy_env and draw = 7 and ?d1.0 = 7 and ?d2.0 = 7] run
  show ?thesis by simp
qed

end
